theory Spec2Isabelle
  imports Complex_Main "HOL-Library.Word"
begin

section \<open>Conventions\<close>

text \<open>
  This theory embeds \<^verbatim>\<open>hylaa/glpk_interface/hylaa_glpk.h\<close>: the class \<^verbatim>\<open>LpData\<close>, which
  keeps one GLPK problem object and rewrites its basis rows between optimisations.

  \<^item> The two global counters and GLPK's iteration count grow for as long as the
    process runs. They are \<open>32 word\<close>: addition and subtraction wrap around at 32 bits,
    as they do in the compiled code, and \<open>sint\<close> reads the signed value of the
    \<^verbatim>\<open>int\<close>.
  \<^item> Every other C++ \<^verbatim>\<open>int\<close> (a dimension, a length, a row or column number, a return
    code) is a HOL \<open>int\<close>: the code compares these and adds a loop index to them, and
    the model describes the executions in which none of these computations leaves the
    range of \<^verbatim>\<open>int\<close>.
  \<^item> A \<^verbatim>\<open>double\<close> is a HOL \<open>real\<close>. The class only copies doubles, compares them with
    zero and stores the constant \<open>-1\<close>; it does no floating-point arithmetic itself.
  \<^item> A pointer argument with its length argument (\<^verbatim>\<open>double* rhs, int rhsLen\<close>) is a list
    (the caller's buffer) together with the \<open>int\<close> that the caller passes. A read or write
    past the end of the buffer is undefined in C++; the model reports it as the result
    \<open>BufferOverrun\<close>. A \<^verbatim>\<open>std::vector\<close> given a negative size throws, which is \<open>BadAlloc\<close>.
  \<^item> \<^verbatim>\<open>exit(1)\<close> after a \<^verbatim>\<open>printf("Fatal Error: ...")\<close> is a result \<open>Inl (e, s)\<close>: the
    error \<open>e\<close> names the check that failed and \<open>s\<close> is the instance as the code left it at
    that moment. A normal return is \<open>Inr\<close>.
  \<^item> GLPK is an external library. Its data-manipulation routines are written out below
    as the GLPK reference manual describes them (an argument that GLPK rejects makes it
    abort: \<open>None\<close>); limits on memory and on the number of rows and columns are not
    modelled. The simplex solver itself is a parameter of the model.
\<close>

section \<open>The GLPK problem object\<close>

datatype glp_type = GLP_FR | GLP_LO | GLP_UP | GLP_DB | GLP_FX

datatype glp_stat = GLP_BS | GLP_NL | GLP_NU | GLP_NF | GLP_NS

datatype glp_dir = GLP_MIN | GLP_MAX

text \<open>Solution statuses (\<^verbatim>\<open>glp_get_status\<close>) and the solver's return codes, as in \<^verbatim>\<open>glpk.h\<close>.\<close>

definition GLP_UNDEF :: int where "GLP_UNDEF = 1"
definition GLP_FEAS :: int where "GLP_FEAS = 2"
definition GLP_INFEAS :: int where "GLP_INFEAS = 3"
definition GLP_NOFEAS :: int where "GLP_NOFEAS = 4"
definition GLP_OPT :: int where "GLP_OPT = 5"
definition GLP_UNBND :: int where "GLP_UNBND = 6"

definition GLP_EBADB :: int where "GLP_EBADB = 1"
definition GLP_ESING :: int where "GLP_ESING = 2"
definition GLP_ECOND :: int where "GLP_ECOND = 3"
definition GLP_ENOPFS :: int where "GLP_ENOPFS = 10"

record glp_row =
  row_type :: glp_type
  row_lb :: real
  row_ub :: real
  row_coefs :: "(int \<times> real) list"
  row_stat :: glp_stat

record glp_col =
  col_type :: glp_type
  col_lb :: real
  col_ub :: real
  col_obj :: real
  col_stat :: glp_stat
  col_prim :: real

record glp_prob =
  lp_dir :: glp_dir
  lp_c0 :: real
  lp_rows :: "glp_row list"
  lp_cols :: "glp_col list"
  lp_it_cnt :: "32 word"
  lp_status :: int

text \<open>Row \<open>i\<close> and column \<open>j\<close> of GLPK (numbered from 1) are element \<open>i - 1\<close> and \<open>j - 1\<close>
  of the lists.\<close>

definition glp_create_prob :: glp_prob where
  "glp_create_prob =
     \<lparr>lp_dir = GLP_MIN, lp_c0 = 0, lp_rows = [], lp_cols = [], lp_it_cnt = 0,
      lp_status = GLP_UNDEF\<rparr>"

definition glp_set_obj_dir :: "glp_prob \<Rightarrow> glp_dir \<Rightarrow> glp_prob" where
  "glp_set_obj_dir P d = P\<lparr>lp_dir := d\<rparr>"

definition glp_get_num_rows :: "glp_prob \<Rightarrow> int" where
  "glp_get_num_rows P = int (length (lp_rows P))"

definition glp_get_num_cols :: "glp_prob \<Rightarrow> int" where
  "glp_get_num_cols P = int (length (lp_cols P))"

definition new_row :: glp_row where
  "new_row = \<lparr>row_type = GLP_FR, row_lb = 0, row_ub = 0, row_coefs = [], row_stat = GLP_BS\<rparr>"

definition new_col :: glp_col where
  "new_col =
     \<lparr>col_type = GLP_FX, col_lb = 0, col_ub = 0, col_obj = 0, col_stat = GLP_NS, col_prim = 0\<rparr>"

definition glp_add_rows :: "glp_prob \<Rightarrow> int \<Rightarrow> glp_prob option" where
  "glp_add_rows P nrs =
     (if nrs < 1 then None
      else Some (P\<lparr>lp_rows := lp_rows P @ replicate (nat nrs) new_row\<rparr>))"

definition glp_add_cols :: "glp_prob \<Rightarrow> int \<Rightarrow> glp_prob option" where
  "glp_add_cols P ncs =
     (if ncs < 1 then None
      else Some (P\<lparr>lp_cols := lp_cols P @ replicate (nat ncs) new_col\<rparr>))"

text \<open>A nonbasic status follows the bound type; a basic row or column stays basic.\<close>

fun nonbasic_stat :: "glp_type \<Rightarrow> glp_stat \<Rightarrow> glp_stat" where
  "nonbasic_stat GLP_FR st = GLP_NF"
| "nonbasic_stat GLP_LO st = GLP_NL"
| "nonbasic_stat GLP_UP st = GLP_NU"
| "nonbasic_stat GLP_DB st = (if st = GLP_NU then GLP_NU else GLP_NL)"
| "nonbasic_stat GLP_FX st = GLP_NS"

fun bnds_stat :: "glp_type \<Rightarrow> real \<Rightarrow> real \<Rightarrow> glp_stat \<Rightarrow> glp_stat" where
  "bnds_stat ty lb ub GLP_BS = GLP_BS"
| "bnds_stat GLP_DB lb ub st =
     (if st = GLP_NL \<or> st = GLP_NU then st else if \<bar>lb\<bar> \<le> \<bar>ub\<bar> then GLP_NL else GLP_NU)"
| "bnds_stat ty lb ub st = nonbasic_stat ty st"

fun bnds_lb :: "glp_type \<Rightarrow> real \<Rightarrow> real" where
  "bnds_lb GLP_FR lb = 0"
| "bnds_lb GLP_UP lb = 0"
| "bnds_lb ty lb = lb"

fun bnds_ub :: "glp_type \<Rightarrow> real \<Rightarrow> real \<Rightarrow> real" where
  "bnds_ub GLP_FR lb ub = 0"
| "bnds_ub GLP_LO lb ub = 0"
| "bnds_ub GLP_FX lb ub = lb"
| "bnds_ub ty lb ub = ub"

definition in_range :: "int \<Rightarrow> int \<Rightarrow> bool" where
  "in_range i n \<longleftrightarrow> 1 \<le> i \<and> i \<le> n"

definition glp_set_row_bnds ::
  "glp_prob \<Rightarrow> int \<Rightarrow> glp_type \<Rightarrow> real \<Rightarrow> real \<Rightarrow> glp_prob option" where
  "glp_set_row_bnds P i ty lb ub =
     (if \<not> in_range i (glp_get_num_rows P) then None
      else let r = lp_rows P ! nat (i - 1) in
        Some (P\<lparr>lp_rows := (lp_rows P)[nat (i - 1) :=
          r\<lparr>row_type := ty, row_lb := bnds_lb ty lb, row_ub := bnds_ub ty lb ub,
            row_stat := bnds_stat ty lb ub (row_stat r)\<rparr>]\<rparr>))"

definition glp_set_col_bnds ::
  "glp_prob \<Rightarrow> int \<Rightarrow> glp_type \<Rightarrow> real \<Rightarrow> real \<Rightarrow> glp_prob option" where
  "glp_set_col_bnds P j ty lb ub =
     (if \<not> in_range j (glp_get_num_cols P) then None
      else let c = lp_cols P ! nat (j - 1) in
        Some (P\<lparr>lp_cols := (lp_cols P)[nat (j - 1) :=
          c\<lparr>col_type := ty, col_lb := bnds_lb ty lb, col_ub := bnds_ub ty lb ub,
            col_stat := bnds_stat ty lb ub (col_stat c)\<rparr>]\<rparr>))"

text \<open>\<^verbatim>\<open>glp_set_mat_row(lp, i, len, ind, val)\<close> replaces row \<open>i\<close> by the \<open>len\<close> pairs
  \<open>(ind[k], val[k])\<close>, here a list of pairs. GLPK rejects a row number or a column index
  out of range, more pairs than columns and a column index that occurs twice; it accepts
  zero values and drops them.\<close>

definition glp_set_mat_row :: "glp_prob \<Rightarrow> int \<Rightarrow> (int \<times> real) list \<Rightarrow> glp_prob option" where
  "glp_set_mat_row P i entries =
     (if \<not> in_range i (glp_get_num_rows P) then None
      else if int (length entries) > glp_get_num_cols P then None
      else if \<not> list_all (\<lambda>(j, v). in_range j (glp_get_num_cols P)) entries then None
      else if \<not> distinct (map fst entries) then None
      else Some (P\<lparr>lp_rows := (lp_rows P)[nat (i - 1) :=
        (lp_rows P ! nat (i - 1))\<lparr>row_coefs := filter (\<lambda>(j, v). v \<noteq> 0) entries\<rparr>]\<rparr>))"



definition glp_set_obj_coef :: "glp_prob \<Rightarrow> int \<Rightarrow> real \<Rightarrow> glp_prob option" where
  "glp_set_obj_coef P j coef =
     (if \<not> (0 \<le> j \<and> j \<le> glp_get_num_cols P) then None
      else if j = 0 then Some (P\<lparr>lp_c0 := coef\<rparr>)
      else Some (P\<lparr>lp_cols := (lp_cols P)[nat (j - 1) :=
        (lp_cols P ! nat (j - 1))\<lparr>col_obj := coef\<rparr>]\<rparr>))"

definition glp_get_obj_coef :: "glp_prob \<Rightarrow> int \<Rightarrow> real" where
  "glp_get_obj_coef P j = col_obj (lp_cols P ! nat (j - 1))"

definition glp_set_row_stat :: "glp_prob \<Rightarrow> int \<Rightarrow> glp_stat \<Rightarrow> glp_prob option" where
  "glp_set_row_stat P i st =
     (if \<not> in_range i (glp_get_num_rows P) then None
      else let r = lp_rows P ! nat (i - 1) in
        Some (P\<lparr>lp_rows := (lp_rows P)[nat (i - 1) :=
          r\<lparr>row_stat := (if st = GLP_BS then GLP_BS else nonbasic_stat (row_type r) st)\<rparr>]\<rparr>))"

definition glp_set_col_stat :: "glp_prob \<Rightarrow> int \<Rightarrow> glp_stat \<Rightarrow> glp_prob option" where
  "glp_set_col_stat P j st =
     (if \<not> in_range j (glp_get_num_cols P) then None
      else let c = lp_cols P ! nat (j - 1) in
        Some (P\<lparr>lp_cols := (lp_cols P)[nat (j - 1) :=
          c\<lparr>col_stat := (if st = GLP_BS then GLP_BS else nonbasic_stat (col_type c) st)\<rparr>]\<rparr>))"

definition glp_get_row_stat :: "glp_prob \<Rightarrow> int \<Rightarrow> glp_stat" where
  "glp_get_row_stat P i = row_stat (lp_rows P ! nat (i - 1))"

definition glp_get_col_stat :: "glp_prob \<Rightarrow> int \<Rightarrow> glp_stat" where
  "glp_get_col_stat P j = col_stat (lp_cols P ! nat (j - 1))"

definition glp_get_col_prim :: "glp_prob \<Rightarrow> int \<Rightarrow> real" where
  "glp_get_col_prim P j = col_prim (lp_cols P ! nat (j - 1))"

definition glp_get_it_cnt :: "glp_prob \<Rightarrow> 32 word" where
  "glp_get_it_cnt P = lp_it_cnt P"

definition glp_get_status :: "glp_prob \<Rightarrow> int" where
  "glp_get_status P = lp_status P"

subsection \<open>The simplex solver\<close>

text \<open>
  \<^verbatim>\<open>glp_simplex\<close> is not part of this repository. One invocation is described by what it
  reports: its return code, the new status of every row and column, the primal value of
  every column, the solution status, and the number of simplex iterations it performed.
  The solver is any function from the problem object to such a report.
  \<open>glp_simplex\<close> stores the report in the problem object: it leaves the rows, their
  bounds and coefficients, the columns' bounds and the objective as they are, and it
  adds the iterations performed to the iteration count, which GLPK only ever counts up
  (in a C \<^verbatim>\<open>int\<close>, hence modulo \<open>2 ^ 32\<close>).
\<close>

record simplex_report =
  sr_ret :: int
  sr_row_stat :: "nat \<Rightarrow> glp_stat"
  sr_col_stat :: "nat \<Rightarrow> glp_stat"
  sr_col_prim :: "nat \<Rightarrow> real"
  sr_status :: int
  sr_iters :: nat

type_synonym solver = "glp_prob \<Rightarrow> simplex_report"

definition store_report :: "glp_prob \<Rightarrow> simplex_report \<Rightarrow> glp_prob" where
  "store_report P rep =
     P\<lparr>lp_rows := map (\<lambda>(i, r). r\<lparr>row_stat := sr_row_stat rep i\<rparr>) (enumerate 1 (lp_rows P)),
       lp_cols := map (\<lambda>(j, c). c\<lparr>col_stat := sr_col_stat rep j, col_prim := sr_col_prim rep j\<rparr>)
                    (enumerate 1 (lp_cols P)),
       lp_it_cnt := lp_it_cnt P + of_nat (sr_iters rep),
       lp_status := sr_status rep\<rparr>"

definition glp_simplex :: "solver \<Rightarrow> glp_prob \<Rightarrow> int \<times> glp_prob" where
  "glp_simplex solve P = (sr_ret (solve P), store_report P (solve P))"

section \<open>Loops\<close>

text \<open>\<^verbatim>\<open>for (int i = 0; i < n; ++i) body(i)\<close>, where the body is a call into GLPK that may
  abort: \<open>for_loop 0 n body P\<close>. The result is \<open>Inr\<close> of the problem object after all
  iterations, or \<open>Inl\<close> of the problem object at the call that aborted.\<close>

fun for_loop :: "nat \<Rightarrow> nat \<Rightarrow> (nat \<Rightarrow> 's \<Rightarrow> 's option) \<Rightarrow> 's \<Rightarrow> 's + 's" where
  "for_loop i 0 body P = Inr P"
| "for_loop i (Suc k) body P =
     (case body i P of None \<Rightarrow> Inl P | Some P' \<Rightarrow> for_loop (Suc i) k body P')"

section \<open>The class LpData\<close>

record GlobalLpData =
  optimizations :: "32 word"
  iterations :: "32 word"

record LpData =
  numOutputVars :: int
  numInitVars :: int
  numInputs :: int
  numInitConstraints :: int
  numOutputConstraints :: int
  inputCsrData :: "real list"
  inputCsrIndices :: "int list"
  inputCsrIndptr :: "int list"
  inputRhs :: "real list"
  lp :: glp_prob

text \<open>Every way in which a call can end the process. The first group are the checks
  that print \<^verbatim>\<open>Fatal Error\<close> about how the class was called.\<close>

datatype fatal =
    CtorNotPositive
  | CtorInputsNotSupported
  | CsrDataLenNeqIndicesLen
  | CsrIndptrLenNeqRhsLenPlus1
  | CsrLastIndptrNeqDataLen
  | InitCalledTwice
  | InitHeightNeqRhsLen
  | InitWidthNeqNumInitVars
  | InitLpHasRows
  | NoOutputAlreadySet
  | OutputCalledTwice
  | OutputWidthNeqNumOutputVars
  | OutputNotRightAfterInit
  | BasisDimensionsMismatch
  | BasisBeforeOutputConstraints
  | MinimizeBeforeConstraints
  | MinimizeDirLenNeqNumOutputVars
  | SimplexNonzero int
  | UnexpectedLpStatus int
  | GlpkAbort
  | BufferOverrun
  | BadAlloc

fun is_config_error :: "fatal \<Rightarrow> bool" where
  "is_config_error (SimplexNonzero c) = False"
| "is_config_error (UnexpectedLpStatus c) = False"
| "is_config_error GlpkAbort = False"
| "is_config_error BufferOverrun = False"
| "is_config_error BadAlloc = False"
| "is_config_error e = True"

type_synonym 'a outcome = "(fatal \<times> LpData) + 'a"

subsection \<open>Constructor\<close>

definition LpData_new :: "int \<Rightarrow> int \<Rightarrow> int \<Rightarrow> fatal + LpData" where
  "LpData_new nOut nInit nIn =
     (if nOut \<le> 0 \<or> nInit \<le> 0 then Inl CtorNotPositive
      else if nIn \<noteq> 0 then Inl CtorInputsNotSupported
      else case glp_add_cols (glp_set_obj_dir glp_create_prob GLP_MIN) (nOut + nInit) of
        None \<Rightarrow> Inl GlpkAbort
      | Some P \<Rightarrow>
         (case for_loop 0 (nat (nOut + nInit))
                 (\<lambda>i P. glp_set_col_bnds P (int i + 1) GLP_FR 0 0) P of
            Inl P' \<Rightarrow> Inl GlpkAbort
          | Inr P' \<Rightarrow>
              Inr \<lparr>numOutputVars = nOut, numInitVars = nInit, numInputs = nIn,
                   numInitConstraints = - 1, numOutputConstraints = - 1,
                   inputCsrData = [], inputCsrIndices = [], inputCsrIndptr = [],
                   inputRhs = [], lp = P'\<rparr>))"

subsection \<open>resetLp\<close>

definition resetLp :: "LpData \<Rightarrow> LpData outcome" where
  "resetLp s =
     (let rows = glp_get_num_rows (lp s); cols = glp_get_num_cols (lp s) in
      case for_loop 0 (nat rows) (\<lambda>r P. glp_set_row_stat P (int r + 1) GLP_BS) (lp s) of
        Inl P \<Rightarrow> Inl (GlpkAbort, s\<lparr>lp := P\<rparr>)
      | Inr P \<Rightarrow>
         (case for_loop 0 (nat cols) (\<lambda>c P. glp_set_col_stat P (int c + 1) GLP_NF) P of
            Inl P' \<Rightarrow> Inl (GlpkAbort, s\<lparr>lp := P'\<rparr>)
          | Inr P' \<Rightarrow> Inr (s\<lparr>lp := P'\<rparr>)))"

subsection \<open>setInputConstraintsCsr\<close>

text \<open>\<open>can_read xs n\<close>: the buffer \<open>xs\<close> holds the \<open>n\<close> elements that a loop
  \<^verbatim>\<open>for (i = 0; i < n; ++i) ... xs[i]\<close> reads.\<close>

definition can_read :: "'a list \<Rightarrow> int \<Rightarrow> bool" where
  "can_read xs n \<longleftrightarrow> n \<le> int (length xs)"

definition setInputConstraintsCsr ::
  "LpData \<Rightarrow> real list \<Rightarrow> int \<Rightarrow> int list \<Rightarrow> int \<Rightarrow> int list \<Rightarrow> int \<Rightarrow> real list \<Rightarrow> int
     \<Rightarrow> LpData outcome" where
  "setInputConstraintsCsr s data dataLen indices indicesLen indptr indptrLen rhs rhsLen =
     (if dataLen \<noteq> indicesLen then Inl (CsrDataLenNeqIndicesLen, s)
      else if indptrLen \<noteq> rhsLen + 1 then Inl (CsrIndptrLenNeqRhsLenPlus1, s)
      else if \<not> (0 \<le> indptrLen - 1 \<and> can_read indptr indptrLen) then Inl (BufferOverrun, s)
      else if indptr ! nat (indptrLen - 1) \<noteq> dataLen then Inl (CsrLastIndptrNeqDataLen, s)
      else if dataLen < 0 \<or> indicesLen < 0 \<or> indptrLen < 0 \<or> rhsLen < 0 then Inl (BadAlloc, s)
      else if \<not> (can_read data dataLen \<and> can_read indices indicesLen \<and> can_read rhs rhsLen)
        then Inl (BufferOverrun, s)
      else Inr (s\<lparr>inputCsrData := take (nat dataLen) data,
                  inputCsrIndices := take (nat indicesLen) indices,
                  inputCsrIndptr := take (nat indptrLen) indptr,
                  inputRhs := take (nat rhsLen) rhs\<rparr>))"

subsection \<open>setInitConstraints and setOutputConstraints\<close>

text \<open>The inner loop of both installers scans row \<open>row\<close> of the dense matrix and collects
  the nonzero entries, with their column numbers shifted by \<open>off\<close>, in the first
  \<open>rowIndex - 1\<close> places of two scratch vectors; only those places are passed to
  \<^verbatim>\<open>glp_set_mat_row\<close>.\<close>

definition dense_row :: "real list \<Rightarrow> int \<Rightarrow> int \<Rightarrow> int \<Rightarrow> (int \<times> real) list" where
  "dense_row mat row w off =
     filter (\<lambda>(j, d). d \<noteq> 0)
       (map (\<lambda>i. (off + int i + 1, mat ! nat (row * w + int i))) [0..<nat w])"

text \<open>\<open>add_constraint_rows s mat w rhs rhsLen base off\<close>: add \<open>rhsLen\<close> rows after row
  \<open>base\<close>, bound each from above by its \<open>rhs\<close> entry, and fill it from the dense matrix.\<close>

definition add_constraint_rows ::
  "LpData \<Rightarrow> real list \<Rightarrow> int \<Rightarrow> real list \<Rightarrow> int \<Rightarrow> int \<Rightarrow> int \<Rightarrow> LpData outcome" where
  "add_constraint_rows s mat w rhs rhsLen base off =
     (case glp_add_rows (lp s) rhsLen of
        None \<Rightarrow> Inl (GlpkAbort, s)
      | Some P1 \<Rightarrow>
          if \<not> can_read rhs rhsLen then Inl (BufferOverrun, s\<lparr>lp := P1\<rparr>)
          else
           (case for_loop 0 (nat rhsLen)
                   (\<lambda>r P. glp_set_row_bnds P (base + int r + 1) GLP_UP 0 (rhs ! r)) P1 of
              Inl P \<Rightarrow> Inl (GlpkAbort, s\<lparr>lp := P\<rparr>)
            | Inr P2 \<Rightarrow>
                if w + 1 < 0 then Inl (BadAlloc, s\<lparr>lp := P2\<rparr>)
                else if \<not> can_read mat (rhsLen * w) then Inl (BufferOverrun, s\<lparr>lp := P2\<rparr>)
                else
                 (case for_loop 0 (nat rhsLen)
                         (\<lambda>row P. glp_set_mat_row P (base + int row + 1)
                                     (dense_row mat (int row) w off)) P2 of
                    Inl P \<Rightarrow> Inl (GlpkAbort, s\<lparr>lp := P\<rparr>)
                  | Inr P3 \<Rightarrow> Inr (s\<lparr>lp := P3\<rparr>))))"

definition setInitConstraints ::
  "LpData \<Rightarrow> real list \<Rightarrow> int \<Rightarrow> int \<Rightarrow> real list \<Rightarrow> int \<Rightarrow> LpData outcome" where
  "setInitConstraints s mat w h rhs rhsLen =
     (if numInitConstraints s \<noteq> - 1 then Inl (InitCalledTwice, s)
      else let s1 = s\<lparr>numInitConstraints := rhsLen\<rparr> in
        if h \<noteq> rhsLen then Inl (InitHeightNeqRhsLen, s1)
        else if w \<noteq> numInitVars s1 then Inl (InitWidthNeqNumInitVars, s1)
        else if glp_get_num_rows (lp s1) \<noteq> 0 then Inl (InitLpHasRows, s1)
        else add_constraint_rows s1 mat w rhs rhsLen 0 0)"

text \<open>The end of \<open>setOutputConstraints\<close>: one row, fixed at zero, for each output variable.\<close>

definition add_basis_rows :: "LpData \<Rightarrow> LpData outcome" where
  "add_basis_rows s =
     (case glp_add_rows (lp s) (numOutputVars s) of
        None \<Rightarrow> Inl (GlpkAbort, s)
      | Some P \<Rightarrow>
         (case for_loop 0 (nat (numOutputVars s))
                 (\<lambda>r P. glp_set_row_bnds P
                    (numInitConstraints s + numOutputConstraints s + int r + 1)
                    GLP_FX 0 0) P of
            Inl P' \<Rightarrow> Inl (GlpkAbort, s\<lparr>lp := P'\<rparr>)
          | Inr P' \<Rightarrow> Inr (s\<lparr>lp := P'\<rparr>)))"

definition setOutputConstraints ::
  "LpData \<Rightarrow> real list \<Rightarrow> int \<Rightarrow> int \<Rightarrow> real list \<Rightarrow> int \<Rightarrow> LpData outcome" where
  "setOutputConstraints s mat w h rhs rhsLen =
     (if numOutputConstraints s \<noteq> - 1 then Inl (OutputCalledTwice, s)
      else let s1 = s\<lparr>numOutputConstraints := rhsLen\<rparr> in
        if w \<noteq> numOutputVars s1 then Inl (OutputWidthNeqNumOutputVars, s1)
        else if glp_get_num_rows (lp s1) \<noteq> numInitConstraints s1
          then Inl (OutputNotRightAfterInit, s1)
        else case (if numOutputConstraints s1 > 0
                   then add_constraint_rows s1 mat w rhs rhsLen
                          (numInitConstraints s1) (numInitVars s1)
                   else Inr s1) of
          Inl e \<Rightarrow> Inl e
        | Inr s2 \<Rightarrow> add_basis_rows s2)"

text \<open>\<^verbatim>\<open>setOutputConstraints(0, numOutputVars, 0, 0, 0)\<close>: both pointers are null and no
  element of either is read.\<close>

definition setNoOutputConstraints :: "LpData \<Rightarrow> LpData outcome" where
  "setNoOutputConstraints s =
     (if numOutputConstraints s \<noteq> - 1 then Inl (NoOutputAlreadySet, s)
      else setOutputConstraints s [] (numOutputVars s) 0 [] 0)"

subsection \<open>updateBasisMatrix\<close>

text \<open>Places \<open>1 .. w\<close> of the scratch vectors hold row \<open>r\<close> of the matrix under the column
  numbers \<open>1 .. w\<close>, place \<open>w + 1\<close> holds \<open>-1\<close> under column \<open>1 + w + r\<close>; all \<open>w + 1\<close>
  places are passed on, zeros included (none when \<open>w = -1\<close>). The vectors have \<open>w + 2\<close>
  places, so writing place \<open>w + 1\<close> overruns them when \<open>w = -2\<close>.\<close>

definition basis_row :: "real list \<Rightarrow> int \<Rightarrow> int \<Rightarrow> (int \<times> real) list" where
  "basis_row mat r w =
     (if w < 0 then []
      else map (\<lambda>i. (1 + int i, mat ! nat (r * w + int i))) [0..<nat w] @ [(1 + w + r, - 1)])"

definition updateBasisMatrix :: "LpData \<Rightarrow> real list \<Rightarrow> int \<Rightarrow> int \<Rightarrow> LpData outcome" where
  "updateBasisMatrix s mat w h =
     (if w \<noteq> numInitVars s \<or> h \<noteq> numOutputVars s then Inl (BasisDimensionsMismatch, s)
      else if numOutputConstraints s = - 1 then Inl (BasisBeforeOutputConstraints, s)
      else if w + 2 < 0 then Inl (BadAlloc, s)
      else if w + 1 < 0 then Inl (BufferOverrun, s)
      else if \<not> can_read mat (numOutputVars s * w) then Inl (BufferOverrun, s)
      else case for_loop 0 (nat (numOutputVars s))
                  (\<lambda>r P. glp_set_mat_row P
                     (numInitConstraints s + numOutputConstraints s + int r + 1)
                     (basis_row mat (int r) w)) (lp s) of
        Inl P \<Rightarrow> Inl (GlpkAbort, s\<lparr>lp := P\<rparr>)
      | Inr P \<Rightarrow> Inr (s\<lparr>lp := P\<rparr>))"

subsection \<open>minimize\<close>

text \<open>\<^verbatim>\<open>for (col = 0; col < resLen && col < numCols; ++col) result[col] = ...\<close>:
  \<open>write_prims P col k result\<close> runs \<open>k\<close> iterations from index \<open>col\<close>.\<close>

fun write_prims :: "glp_prob \<Rightarrow> nat \<Rightarrow> nat \<Rightarrow> real list \<Rightarrow> real list" where
  "write_prims P col 0 result = result"
| "write_prims P col (Suc k) result =
     write_prims P (Suc col) k (result[col := glp_get_col_prim P (int col + 1)])"

text \<open>The two tables of messages have eleven entries each, so the check that compares
  their sizes never fails; the message itself is only printed.\<close>

definition processSimplexResult ::
  "LpData \<Rightarrow> int \<Rightarrow> real list \<Rightarrow> int \<Rightarrow> (int \<times> real list) outcome" where
  "processSimplexResult s simplexRes result resLen =
     (if simplexRes = GLP_ENOPFS then Inr (1, result)
      else if simplexRes \<noteq> 0 then Inl (SimplexNonzero simplexRes, s)
      else let status = glp_get_status (lp s) in
        if status = GLP_OPT then
          (let numCols = glp_get_num_cols (lp s) in
           if \<not> can_read result (min resLen numCols) then Inl (BufferOverrun, s)
           else Inr (0, write_prims (lp s) 0 (nat (min resLen numCols)) result))
        else if status = GLP_NOFEAS then Inr (1, result)
        else Inl (UnexpectedLpStatus status, s))"

text \<open>The objective loop of \<open>minimize\<close>.\<close>

definition set_direction :: "LpData \<Rightarrow> real list \<Rightarrow> glp_prob + glp_prob" where
  "set_direction s direction =
     for_loop 0 (nat (numOutputVars s))
       (\<lambda>i P. glp_set_obj_coef P (1 + numInitVars s + int i) (direction ! i)) (lp s)"

text \<open>The solver is called; after a nonzero return code the statuses are reset and it is
  called again. \<open>Inr (simplexRes, s')\<close> is the return code that reaches
  \<^verbatim>\<open>processSimplexResult\<close> and the instance at that moment.\<close>

definition simplex_with_retry :: "solver \<Rightarrow> LpData \<Rightarrow> (int \<times> LpData) outcome" where
  "simplex_with_retry solve s =
     (case glp_simplex solve (lp s) of (simplexRes, P1) \<Rightarrow>
        if simplexRes \<noteq> 0 then
          (case resetLp (s\<lparr>lp := P1\<rparr>) of
             Inl e \<Rightarrow> Inl e
           | Inr s2 \<Rightarrow>
              (case glp_simplex solve (lp s2) of (simplexRes', P2) \<Rightarrow>
                 Inr (simplexRes', s2\<lparr>lp := P2\<rparr>)))
        else Inr (simplexRes, s\<lparr>lp := P1\<rparr>))"

type_synonym min_outcome =
  "(fatal \<times> GlobalLpData \<times> LpData) + (GlobalLpData \<times> LpData \<times> int \<times> real list)"

text \<open>The second half of \<open>minimize\<close>, from \<^verbatim>\<open>int startIterations = glp_get_it_cnt(lp)\<close> on:
  solve, add to the two global counters, and interpret the result. \<^verbatim>\<open>startIterations\<close>,
  \<^verbatim>\<open>newIterations\<close> and both counters are \<^verbatim>\<open>int\<close>: the difference and the two sums are
  taken at 32 bits.\<close>

definition solve_and_report ::
  "solver \<Rightarrow> GlobalLpData \<Rightarrow> LpData \<Rightarrow> real list \<Rightarrow> int \<Rightarrow> min_outcome" where
  "solve_and_report solve g s result resLen =
     (let startIterations = glp_get_it_cnt (lp s) in
      case simplex_with_retry solve s of
        Inl (e, s') \<Rightarrow> Inl (e, g, s')
      | Inr (simplexRes, s') \<Rightarrow>
          let newIterations = glp_get_it_cnt (lp s') - startIterations;
              g' = g\<lparr>iterations := iterations g + newIterations,
                     optimizations := optimizations g + 1\<rparr>
          in (case processSimplexResult s' simplexRes result resLen of
                Inl (e, s'') \<Rightarrow> Inl (e, g', s'')
              | Inr (rv, result') \<Rightarrow> Inr (g', s', rv, result')))"

definition minimize ::
  "solver \<Rightarrow> GlobalLpData \<Rightarrow> LpData \<Rightarrow> real list \<Rightarrow> int \<Rightarrow> real list \<Rightarrow> int \<Rightarrow> min_outcome" where
  "minimize solve g s direction dirLen result resLen =
     (if numInitConstraints s = - 1 \<or> numOutputConstraints s = - 1
        then Inl (MinimizeBeforeConstraints, g, s)
      else if dirLen \<noteq> numOutputVars s then Inl (MinimizeDirLenNeqNumOutputVars, g, s)
      else if \<not> can_read direction (numOutputVars s) then Inl (BufferOverrun, g, s)
      else case set_direction s direction of
        Inl P \<Rightarrow> Inl (GlpkAbort, g, s\<lparr>lp := P\<rparr>)
      | Inr P0 \<Rightarrow> solve_and_report solve g (s\<lparr>lp := P0\<rparr>) result resLen)"

subsection \<open>Call sequences\<close>

text \<open>A call of a public member function with its arguments. \<open>printLp\<close> only prints.\<close>

datatype call =
    ResetLp
  | PrintLp
  | SetInputConstraintsCsr "real list" int "int list" int "int list" int "real list" int
  | SetInitConstraints "real list" int int "real list" int
  | SetNoOutputConstraints
  | SetOutputConstraints "real list" int int "real list" int
  | UpdateBasisMatrix "real list" int int
  | Minimize "real list" int "real list" int

type_synonym run_outcome = "(fatal \<times> GlobalLpData \<times> LpData) + (GlobalLpData \<times> LpData)"

definition with_global :: "GlobalLpData \<Rightarrow> LpData outcome \<Rightarrow> run_outcome" where
  "with_global g r = (case r of Inl (e, s) \<Rightarrow> Inl (e, g, s) | Inr s \<Rightarrow> Inr (g, s))"

fun step :: "solver \<Rightarrow> GlobalLpData \<times> LpData \<Rightarrow> call \<Rightarrow> run_outcome" where
  "step solve (g, s) ResetLp = with_global g (resetLp s)"
| "step solve (g, s) PrintLp = Inr (g, s)"
| "step solve (g, s) (SetInputConstraintsCsr d dl ix il ip pl rhs rl) =
     with_global g (setInputConstraintsCsr s d dl ix il ip pl rhs rl)"
| "step solve (g, s) (SetInitConstraints mat w h rhs rl) =
     with_global g (setInitConstraints s mat w h rhs rl)"
| "step solve (g, s) SetNoOutputConstraints = with_global g (setNoOutputConstraints s)"
| "step solve (g, s) (SetOutputConstraints mat w h rhs rl) =
     with_global g (setOutputConstraints s mat w h rhs rl)"
| "step solve (g, s) (UpdateBasisMatrix mat w h) = with_global g (updateBasisMatrix s mat w h)"
| "step solve (g, s) (Minimize dir dl res rl) =
     (case minimize solve g s dir dl res rl of
        Inl e \<Rightarrow> Inl e
      | Inr (g', s', rv, res') \<Rightarrow> Inr (g', s'))"

text \<open>A sequence of calls stops at the first one that ends the process.\<close>

fun run :: "solver \<Rightarrow> GlobalLpData \<times> LpData \<Rightarrow> call list \<Rightarrow> run_outcome" where
  "run solve gs [] = Inr gs"
| "run solve gs (c # cs) =
     (case step solve gs c of Inl e \<Rightarrow> Inl e | Inr gs' \<Rightarrow> run solve gs' cs)"

section \<open>Notions used in the statements\<close>

text \<open>The format as the specification words it: the three length conditions on a
  compressed-sparse-row triple and its right-hand side.\<close>

definition csr_well_formed :: "real list \<Rightarrow> int list \<Rightarrow> int list \<Rightarrow> real list \<Rightarrow> bool" where
  "csr_well_formed data indices indptr rhs \<longleftrightarrow>
     length data = length indices \<and> length indptr = length rhs + 1
     \<and> last indptr = int (length data)"

text \<open>The calls that install the init block and the output block.\<close>

fun installs_init :: "call \<Rightarrow> bool" where
  "installs_init (SetInitConstraints mat w h rhs rl) = True"
| "installs_init c = False"

fun installs_output :: "call \<Rightarrow> bool" where
  "installs_output (SetOutputConstraints mat w h rhs rl) = True"
| "installs_output SetNoOutputConstraints = True"
| "installs_output c = False"

text \<open>"Reset all row statuses to basic and all column statuses to free-nonbasic", with
  the adjustment that GLPK makes to a nonbasic status.\<close>

definition reset_basis :: "glp_prob \<Rightarrow> glp_prob" where
  "reset_basis P =
     P\<lparr>lp_rows := map (\<lambda>r. r\<lparr>row_stat := GLP_BS\<rparr>) (lp_rows P),
       lp_cols := map (\<lambda>c. c\<lparr>col_stat := nonbasic_stat (col_type c) GLP_NF\<rparr>) (lp_cols P)\<rparr>"

text \<open>The problem object after one invocation of the solver.\<close>

definition solved :: "solver \<Rightarrow> glp_prob \<Rightarrow> glp_prob" where
  "solved solve P = store_report P (solve P)"

text \<open>Two problem objects that differ at most in their rows (in their columns), the
  number of rows (of columns) being the same.\<close>

definition same_except_rows :: "glp_prob \<Rightarrow> glp_prob \<Rightarrow> bool" where
  "same_except_rows P P' \<longleftrightarrow>
     lp_dir P' = lp_dir P \<and> lp_c0 P' = lp_c0 P \<and> lp_cols P' = lp_cols P
     \<and> lp_it_cnt P' = lp_it_cnt P \<and> lp_status P' = lp_status P
     \<and> length (lp_rows P') = length (lp_rows P)"

definition same_except_cols :: "glp_prob \<Rightarrow> glp_prob \<Rightarrow> bool" where
  "same_except_cols P P' \<longleftrightarrow>
     lp_dir P' = lp_dir P \<and> lp_c0 P' = lp_c0 P \<and> lp_rows P' = lp_rows P
     \<and> lp_it_cnt P' = lp_it_cnt P \<and> lp_status P' = lp_status P
     \<and> length (lp_cols P') = length (lp_cols P)"

text \<open>What holds of every instance that the constructor built, whatever was called on
  it since: both dimensions are positive, there is one free column for each variable, the
  objective is zero on the init-variable columns, and once the output installer has run
  the rows that \<open>updateBasisMatrix\<close> addresses exist.\<close>

definition lp_wf :: "LpData \<Rightarrow> bool" where
  "lp_wf s \<longleftrightarrow>
     0 < numOutputVars s \<and> 0 < numInitVars s
     \<and> int (length (lp_cols (lp s))) = numInitVars s + numOutputVars s
     \<and> set (map col_type (lp_cols (lp s))) \<subseteq> {GLP_FR}
     \<and> set (take (nat (numInitVars s)) (map col_obj (lp_cols (lp s)))) \<subseteq> {0}
     \<and> (numOutputConstraints s \<noteq> - 1 \<longrightarrow>
          0 \<le> numInitConstraints s + numOutputConstraints s
          \<and> numInitConstraints s + numOutputConstraints s + numOutputVars s
               \<le> int (length (lp_rows (lp s))))"

text \<open>
  The iterations of the solver during one \<open>minimize\<close> that starts it on \<open>P\<close>: those of
  the first invocation and, when that returned nonzero, those of the second.
\<close>

definition pivots :: "solver \<Rightarrow> glp_prob \<Rightarrow> nat" where
  "pivots solve P =
     (if sr_ret (solve P) = 0 then sr_iters (solve P)
      else sr_iters (solve P) + sr_iters (solve (reset_basis (solved solve P))))"

section \<open>A concrete problem\<close>

text \<open>
  \<^verbatim>\<open>LpData(1, 1, 0)\<close> with the initial set \<open>-1 \<le> x \<le> 1\<close> (two rows), no output
  constraints and the basis matrix \<open>(2)\<close>, so that the output variable is \<open>y = 2 x\<close>.
  Minimising \<open>y\<close> has the optimum \<open>x = -1\<close>, \<open>y = -2\<close>.

  \<open>demo_solver\<close> stands for GLPK on this problem: started from the initial basis (all
  rows basic, all columns free-nonbasic) it reports that optimum after two iterations;
  started from any other basis it reports \<^verbatim>\<open>GLP_ESING\<close> and leaves everything as it is.
\<close>

definition free_col :: glp_col where
  "free_col =
     \<lparr>col_type = GLP_FR, col_lb = 0, col_ub = 0, col_obj = 0, col_stat = GLP_NF, col_prim = 0\<rparr>"

definition inst_1_1 :: LpData where
  "inst_1_1 =
     \<lparr>numOutputVars = 1, numInitVars = 1, numInputs = 0,
      numInitConstraints = - 1, numOutputConstraints = - 1,
      inputCsrData = [], inputCsrIndices = [], inputCsrIndptr = [], inputRhs = [],
      lp = \<lparr>lp_dir = GLP_MIN, lp_c0 = 0, lp_rows = [], lp_cols = [free_col, free_col],
             lp_it_cnt = 0, lp_status = GLP_UNDEF\<rparr>\<rparr>"

definition zero_global :: GlobalLpData where
  "zero_global = \<lparr>optimizations = 0, iterations = 0\<rparr>"

definition fresh_basis :: "glp_prob \<Rightarrow> bool" where
  "fresh_basis P \<longleftrightarrow>
     list_all (\<lambda>r. row_stat r = GLP_BS) (lp_rows P) \<and> list_all (\<lambda>c. col_stat c = GLP_NF) (lp_cols P)"

definition demo_solver :: solver where
  "demo_solver P =
     (if fresh_basis P
      then \<lparr>sr_ret = 0,
            sr_row_stat = (\<lambda>i. if i = 1 then GLP_BS else if i = 2 then GLP_NU else GLP_NS),
            sr_col_stat = (\<lambda>j. GLP_BS),
            sr_col_prim = (\<lambda>j. if j = 1 then - 1 else - 2),
            sr_status = GLP_OPT, sr_iters = 2\<rparr>
      else \<lparr>sr_ret = GLP_ESING,
            sr_row_stat = (\<lambda>i. glp_get_row_stat P (int i)),
            sr_col_stat = (\<lambda>j. glp_get_col_stat P (int j)),
            sr_col_prim = (\<lambda>j. glp_get_col_prim P (int j)),
            sr_status = GLP_UNDEF, sr_iters = 0\<rparr>)"

definition box_calls :: "call list" where
  "box_calls =
     [SetInitConstraints [1, - 1] 1 2 [1, 1] 2, SetNoOutputConstraints, UpdateBasisMatrix [2] 1 1]"

definition later_calls :: "call list" where
  "later_calls =
     [UpdateBasisMatrix [2] 1 1, Minimize [1] 1 [0] 1, ResetLp,
      SetInputConstraintsCsr [] 0 [] 0 [0] 1 [] 0, Minimize [1] 1 [0, 0] 2]"

definition box_lp :: glp_prob where
  "box_lp =
     \<lparr>lp_dir = GLP_MIN, lp_c0 = 0,
      lp_rows =
        [\<lparr>row_type = GLP_UP, row_lb = 0, row_ub = 1, row_coefs = [(1, 1)], row_stat = GLP_BS\<rparr>,
         \<lparr>row_type = GLP_UP, row_lb = 0, row_ub = 1, row_coefs = [(1, - 1)], row_stat = GLP_BS\<rparr>,
         \<lparr>row_type = GLP_FX, row_lb = 0, row_ub = 0, row_coefs = [(1, 2), (2, - 1)],
           row_stat = GLP_BS\<rparr>],
      lp_cols = [free_col, free_col], lp_it_cnt = 0, lp_status = GLP_UNDEF\<rparr>"

definition box_instance :: LpData where
  "box_instance = inst_1_1\<lparr>numInitConstraints := 2, numOutputConstraints := 0, lp := box_lp\<rparr>"

definition box_init :: LpData where
  "box_init =
     inst_1_1\<lparr>numInitConstraints := 2,
       lp := box_lp\<lparr>lp_rows := take 2 (lp_rows box_lp)\<rparr>\<rparr>"

definition box_installed :: LpData where
  "box_installed =
     box_instance\<lparr>lp := box_lp\<lparr>lp_rows := take 2 (lp_rows box_lp)
        @ [\<lparr>row_type = GLP_FX, row_lb = 0, row_ub = 0, row_coefs = [], row_stat = GLP_BS\<rparr>]\<rparr>\<rparr>"

definition box_objective_lp :: glp_prob where
  "box_objective_lp = box_lp\<lparr>lp_cols := [free_col, free_col\<lparr>col_obj := 1\<rparr>]\<rparr>"

definition box_solved_lp :: glp_prob where
  "box_solved_lp =
     \<lparr>lp_dir = GLP_MIN, lp_c0 = 0,
      lp_rows =
        [\<lparr>row_type = GLP_UP, row_lb = 0, row_ub = 1, row_coefs = [(1, 1)], row_stat = GLP_BS\<rparr>,
         \<lparr>row_type = GLP_UP, row_lb = 0, row_ub = 1, row_coefs = [(1, - 1)], row_stat = GLP_NU\<rparr>,
         \<lparr>row_type = GLP_FX, row_lb = 0, row_ub = 0, row_coefs = [(1, 2), (2, - 1)],
           row_stat = GLP_NS\<rparr>],
      lp_cols =
        [\<lparr>col_type = GLP_FR, col_lb = 0, col_ub = 0, col_obj = 0, col_stat = GLP_BS,
           col_prim = - 1\<rparr>,
         \<lparr>col_type = GLP_FR, col_lb = 0, col_ub = 0, col_obj = 1, col_stat = GLP_BS,
           col_prim = - 2\<rparr>],
      lp_it_cnt = 2, lp_status = GLP_OPT\<rparr>"

definition box_solved :: LpData where
  "box_solved = box_instance\<lparr>lp := box_solved_lp\<rparr>"

text \<open>
  The same instance with one output constraint, \<open>y \<le> 5\<close>, installed after the initial
  set in place of none, and then with the basis matrix \<open>(2)\<close> in its last row.
\<close>

definition box_output :: LpData where
  "box_output =
     box_init\<lparr>numOutputConstraints := 1,
       lp := box_lp\<lparr>lp_rows := take 2 (lp_rows box_lp)
        @ [\<lparr>row_type = GLP_UP, row_lb = 0, row_ub = 5, row_coefs = [(2, 1)], row_stat = GLP_BS\<rparr>,
           \<lparr>row_type = GLP_FX, row_lb = 0, row_ub = 0, row_coefs = [], row_stat = GLP_BS\<rparr>]\<rparr>\<rparr>"

definition box_output_basis :: LpData where
  "box_output_basis =
     box_output\<lparr>lp := (lp box_output)\<lparr>lp_rows := take 3 (lp_rows (lp box_output))
        @ [\<lparr>row_type = GLP_FX, row_lb = 0, row_ub = 0, row_coefs = [(1, 2), (2, - 1)],
            row_stat = GLP_BS\<rparr>]\<rparr>\<rparr>"

section \<open>Auxiliary lemmas\<close>

subsection \<open>Loops, GLPK routines and the member functions\<close>

lemma for_loop_inv:
  assumes "\<And>i P P'. body i P = Some P' \<Longrightarrow> Q P \<Longrightarrow> Q P'" and "Q P"
  shows "case for_loop i k body P of Inl P' \<Rightarrow> Q P' | Inr P' \<Rightarrow> Q P'"
  using assms(2)
proof (induction k arbitrary: i P)
  case 0
  then show ?case by simp
next
  case (Suc k)
  show ?case
  proof (cases "body i P")
    case None
    then show ?thesis using Suc.prems by simp
  next
    case (Some P')
    then have "Q P'" using assms(1) Suc.prems by blast
    then show ?thesis using Some Suc.IH by simp
  qed
qed

lemma for_loop_Inr_inv:
  assumes "for_loop i k body P = Inr P'" and "Q P"
    and "\<And>i P P'. body i P = Some P' \<Longrightarrow> Q P \<Longrightarrow> Q P'"
  shows "Q P'"
  using for_loop_inv [of body Q P i k] assms by simp

lemma same_except_rows_refl [simp]: "same_except_rows P P"
  by (simp add: same_except_rows_def)

lemma same_except_cols_refl [simp]: "same_except_cols P P"
  by (simp add: same_except_cols_def)

lemma same_except_rows_trans:
  "same_except_rows P Q \<Longrightarrow> same_except_rows Q R \<Longrightarrow> same_except_rows P R"
  by (simp add: same_except_rows_def)

lemma same_except_cols_trans:
  "same_except_cols P Q \<Longrightarrow> same_except_cols Q R \<Longrightarrow> same_except_cols P R"
  by (simp add: same_except_cols_def)

lemma same_except_rows_eq:
  "same_except_rows P P' \<Longrightarrow> P' = P\<lparr>lp_rows := lp_rows P'\<rparr>"
  by (rule glp_prob.equality) (simp_all add: same_except_rows_def)

lemma same_except_cols_eq:
  "same_except_cols P P' \<Longrightarrow> P' = P\<lparr>lp_cols := lp_cols P'\<rparr>"
  by (rule glp_prob.equality) (simp_all add: same_except_cols_def)

lemma glp_set_row_bnds_rows:
  "glp_set_row_bnds P i ty lb ub = Some P' \<Longrightarrow> same_except_rows P P'"
  by (auto simp: glp_set_row_bnds_def same_except_rows_def Let_def split: if_splits)

lemma glp_set_mat_row_rows:
  "glp_set_mat_row P i es = Some P' \<Longrightarrow> same_except_rows P P'"
  by (auto simp: glp_set_mat_row_def same_except_rows_def Let_def split: if_splits)

lemma for_loop_rows_nth:
  assumes body: "\<And>r P. i \<le> r \<Longrightarrow> r < i + k \<Longrightarrow> lp_cols P = C \<Longrightarrow> m + r < length (lp_rows P) \<Longrightarrow>
            body r P = Some (P\<lparr>lp_rows := (lp_rows P)[m + r := F r (lp_rows P ! (m + r))]\<rparr>)"
    and "lp_cols P = C" and "m + i + k \<le> length (lp_rows P)"
  shows "\<exists>P'. for_loop i k body P = Inr P' \<and> same_except_rows P P' \<and>
           (\<forall>n<length (lp_rows P). lp_rows P' ! n =
              (if m + i \<le> n \<and> n < m + i + k then F (n - m) (lp_rows P ! n) else lp_rows P ! n))"
  using assms
proof (induction k arbitrary: i P)
  case 0
  then show ?case by auto
next
  case (Suc k)
  let ?P1 = "P\<lparr>lp_rows := (lp_rows P)[m + i := F i (lp_rows P ! (m + i))]\<rparr>"
  have b: "body i P = Some ?P1"
    using Suc.prems(1) [of i P] Suc.prems(2,3) by simp
  have "\<exists>P'. for_loop (Suc i) k body ?P1 = Inr P' \<and> same_except_rows ?P1 P' \<and>
           (\<forall>n<length (lp_rows ?P1). lp_rows P' ! n =
              (if m + Suc i \<le> n \<and> n < m + Suc i + k then F (n - m) (lp_rows ?P1 ! n)
               else lp_rows ?P1 ! n))"
  proof (rule Suc.IH)
    show "\<And>r P. Suc i \<le> r \<Longrightarrow> r < Suc i + k \<Longrightarrow> lp_cols P = C \<Longrightarrow> m + r < length (lp_rows P) \<Longrightarrow>
            body r P = Some (P\<lparr>lp_rows := (lp_rows P)[m + r := F r (lp_rows P ! (m + r))]\<rparr>)"
      using Suc.prems(1) by simp
    show "lp_cols ?P1 = C" using Suc.prems(2) by simp
    show "m + Suc i + k \<le> length (lp_rows ?P1)" using Suc.prems(3) by simp
  qed
  then obtain P' where l: "for_loop (Suc i) k body ?P1 = Inr P'"
    and s: "same_except_rows ?P1 P'"
    and n: "\<forall>n<length (lp_rows ?P1). lp_rows P' ! n =
              (if m + Suc i \<le> n \<and> n < m + Suc i + k then F (n - m) (lp_rows ?P1 ! n)
               else lp_rows ?P1 ! n)"
    by blast
  have s1: "same_except_rows P ?P1" by (simp add: same_except_rows_def)
  have "same_except_rows P P'" using s1 s by (rule same_except_rows_trans)
  moreover have "\<forall>n<length (lp_rows P). lp_rows P' ! n =
              (if m + i \<le> n \<and> n < m + i + Suc k then F (n - m) (lp_rows P ! n)
               else lp_rows P ! n)"
  proof (intro allI impI)
    fix n assume "n < length (lp_rows P)"
    then show "lp_rows P' ! n =
              (if m + i \<le> n \<and> n < m + i + Suc k then F (n - m) (lp_rows P ! n)
               else lp_rows P ! n)"
      using n Suc.prems(3) by (cases "n = m + i") (auto simp: nth_list_update)
  qed
  ultimately show ?case using b l by simp
qed

lemma for_loop_cols_nth:
  assumes body: "\<And>r P. i \<le> r \<Longrightarrow> r < i + k \<Longrightarrow> m + r < length (lp_cols P) \<Longrightarrow>
            body r P = Some (P\<lparr>lp_cols := (lp_cols P)[m + r := F r (lp_cols P ! (m + r))]\<rparr>)"
    and "m + i + k \<le> length (lp_cols P)"
  shows "\<exists>P'. for_loop i k body P = Inr P' \<and> same_except_cols P P' \<and>
           (\<forall>n<length (lp_cols P). lp_cols P' ! n =
              (if m + i \<le> n \<and> n < m + i + k then F (n - m) (lp_cols P ! n) else lp_cols P ! n))"
  using assms
proof (induction k arbitrary: i P)
  case 0
  then show ?case by auto
next
  case (Suc k)
  let ?P1 = "P\<lparr>lp_cols := (lp_cols P)[m + i := F i (lp_cols P ! (m + i))]\<rparr>"
  have b: "body i P = Some ?P1"
    using Suc.prems(1) [of i P] Suc.prems(2) by simp
  have "\<exists>P'. for_loop (Suc i) k body ?P1 = Inr P' \<and> same_except_cols ?P1 P' \<and>
           (\<forall>n<length (lp_cols ?P1). lp_cols P' ! n =
              (if m + Suc i \<le> n \<and> n < m + Suc i + k then F (n - m) (lp_cols ?P1 ! n)
               else lp_cols ?P1 ! n))"
  proof (rule Suc.IH)
    show "\<And>r P. Suc i \<le> r \<Longrightarrow> r < Suc i + k \<Longrightarrow> m + r < length (lp_cols P) \<Longrightarrow>
            body r P = Some (P\<lparr>lp_cols := (lp_cols P)[m + r := F r (lp_cols P ! (m + r))]\<rparr>)"
      using Suc.prems(1) by simp
    show "m + Suc i + k \<le> length (lp_cols ?P1)" using Suc.prems(2) by simp
  qed
  then obtain P' where l: "for_loop (Suc i) k body ?P1 = Inr P'"
    and s: "same_except_cols ?P1 P'"
    and n: "\<forall>n<length (lp_cols ?P1). lp_cols P' ! n =
              (if m + Suc i \<le> n \<and> n < m + Suc i + k then F (n - m) (lp_cols ?P1 ! n)
               else lp_cols ?P1 ! n)"
    by blast
  have s1: "same_except_cols P ?P1" by (simp add: same_except_cols_def)
  have "same_except_cols P P'" using s1 s by (rule same_except_cols_trans)
  moreover have "\<forall>n<length (lp_cols P). lp_cols P' ! n =
              (if m + i \<le> n \<and> n < m + i + Suc k then F (n - m) (lp_cols P ! n)
               else lp_cols P ! n)"
  proof (intro allI impI)
    fix n assume "n < length (lp_cols P)"
    then show "lp_cols P' ! n =
              (if m + i \<le> n \<and> n < m + i + Suc k then F (n - m) (lp_cols P ! n)
               else lp_cols P ! n)"
      using n Suc.prems(2) by (cases "n = m + i") (auto simp: nth_list_update)
  qed
  ultimately show ?case using b l by simp
qed

lemma rows_loop_same:
  assumes "for_loop i k body P = Inr P'"
    and "\<And>r Q Q'. body r Q = Some Q' \<Longrightarrow> same_except_rows Q Q'"
  shows "same_except_rows P P'"
  using assms(1)
  by (rule for_loop_Inr_inv [where Q = "same_except_rows P"])
     (auto intro: same_except_rows_trans assms(2))

lemma glp_add_rows_Some:
  "glp_add_rows P n = Some P' \<Longrightarrow>
     1 \<le> n \<and> P' = P\<lparr>lp_rows := lp_rows P @ replicate (nat n) new_row\<rparr>"
  by (auto simp: glp_add_rows_def split: if_splits)

lemma add_constraint_rows_Inr:
  assumes "add_constraint_rows s mat w rhs rhsLen base off = Inr s'"
  obtains P' where "s' = s\<lparr>lp := P'\<rparr>" and "1 \<le> rhsLen"
    and "same_except_rows ((lp s)\<lparr>lp_rows := lp_rows (lp s) @ replicate (nat rhsLen) new_row\<rparr>) P'"
proof -
  from assms obtain P1 P2 P3 where
    a: "glp_add_rows (lp s) rhsLen = Some P1"
    and l1: "for_loop 0 (nat rhsLen)
               (\<lambda>r P. glp_set_row_bnds P (base + int r + 1) GLP_UP 0 (rhs ! r)) P1 = Inr P2"
    and l2: "for_loop 0 (nat rhsLen)
               (\<lambda>row P. glp_set_mat_row P (base + int row + 1)
                  (dense_row mat (int row) w off)) P2 = Inr P3"
    and s': "s' = s\<lparr>lp := P3\<rparr>"
    by (auto simp: add_constraint_rows_def split: option.splits if_splits sum.splits)
  have 1: "same_except_rows P1 P2"
    using l1 by (rule rows_loop_same) (rule glp_set_row_bnds_rows)
  have 2: "same_except_rows P2 P3"
    using l2 by (rule rows_loop_same) (rule glp_set_mat_row_rows)
  have 3: "same_except_rows P1 P3" using 1 2 by (rule same_except_rows_trans)
  from a have n: "1 \<le> rhsLen"
    and P1: "P1 = (lp s)\<lparr>lp_rows := lp_rows (lp s) @ replicate (nat rhsLen) new_row\<rparr>"
    using glp_add_rows_Some by blast+
  show ?thesis using that [OF s' n] 3 P1 by simp
qed

lemma setInitConstraints_Inr:
  assumes "setInitConstraints s mat w h rhs rhsLen = Inr s'"
  obtains P' where "s' = s\<lparr>numInitConstraints := rhsLen, lp := P'\<rparr>"
    and "numInitConstraints s = - 1" and "lp_rows (lp s) = []" and "1 \<le> rhsLen"
    and "same_except_rows ((lp s)\<lparr>lp_rows := replicate (nat rhsLen) new_row\<rparr>) P'"
proof -
  let ?s1 = "s\<lparr>numInitConstraints := rhsLen\<rparr>"
  from assms have u: "numInitConstraints s = - 1" and r: "lp_rows (lp s) = []"
    and a: "add_constraint_rows ?s1 mat w rhs rhsLen 0 0 = Inr s'"
    by (auto simp: setInitConstraints_def Let_def glp_get_num_rows_def split: if_splits)
  from a obtain P' where "s' = ?s1\<lparr>lp := P'\<rparr>" and "1 \<le> rhsLen"
    and "same_except_rows ((lp ?s1)\<lparr>lp_rows := lp_rows (lp ?s1) @ replicate (nat rhsLen) new_row\<rparr>) P'"
    by (rule add_constraint_rows_Inr)
  then show ?thesis using that [of P'] u r by simp
qed

lemma for_loop_first:
  "for_loop i (Suc k) body P = Inr P' \<Longrightarrow> \<exists>P1. body i P = Some P1"
  by (cases "body i P") auto

lemma add_basis_rows_Inr:
  assumes "add_basis_rows s = Inr s'"
  obtains P' where "s' = s\<lparr>lp := P'\<rparr>" and "1 \<le> numOutputVars s"
    and "0 \<le> numInitConstraints s + numOutputConstraints s"
    and "same_except_rows
           ((lp s)\<lparr>lp_rows := lp_rows (lp s) @ replicate (nat (numOutputVars s)) new_row\<rparr>) P'"
proof -
  let ?body = "\<lambda>r P. glp_set_row_bnds P
                  (numInitConstraints s + numOutputConstraints s + int r + 1) GLP_FX 0 0"
  from assms obtain P P' where
    a: "glp_add_rows (lp s) (numOutputVars s) = Some P"
    and l: "for_loop 0 (nat (numOutputVars s)) ?body P = Inr P'"
    and s': "s' = s\<lparr>lp := P'\<rparr>"
    by (auto simp: add_basis_rows_def split: option.splits sum.splits)
  from glp_add_rows_Some [OF a] have n: "1 \<le> numOutputVars s"
    and P: "P = (lp s)\<lparr>lp_rows := lp_rows (lp s) @ replicate (nat (numOutputVars s)) new_row\<rparr>"
    by blast+
  have same: "same_except_rows P P'"
    using l by (rule rows_loop_same) (rule glp_set_row_bnds_rows)
  from n obtain k where k: "nat (numOutputVars s) = Suc k"
    by (cases "nat (numOutputVars s)") auto
  from for_loop_first [OF l [unfolded k]] obtain P1 where "?body 0 P = Some P1" ..
  then have lo: "0 \<le> numInitConstraints s + numOutputConstraints s"
    by (simp add: glp_set_row_bnds_def in_range_def split: if_splits)
  show ?thesis using that [OF s' n lo] same P by simp
qed

lemma setOutputConstraints_Inr:
  assumes "setOutputConstraints s mat w h rhs rhsLen = Inr s'"
  obtains P' where "s' = s\<lparr>numOutputConstraints := rhsLen, lp := P'\<rparr>"
    and "numOutputConstraints s = - 1" and "w = numOutputVars s"
    and "int (length (lp_rows (lp s))) = numInitConstraints s" and "1 \<le> numOutputVars s"
    and "0 \<le> numInitConstraints s + rhsLen"
    and "same_except_rows ((lp s)\<lparr>lp_rows := lp_rows P'\<rparr>) P'"
    and "int (length (lp_rows P')) =
           numInitConstraints s + (if 0 < rhsLen then rhsLen else 0) + numOutputVars s"
proof -
  let ?s1 = "s\<lparr>numOutputConstraints := rhsLen\<rparr>"
  have u: "numOutputConstraints s = - 1"
    using assms by (simp add: setOutputConstraints_def split: if_splits)
  have w: "w = numOutputVars s"
    using assms u by (simp add: setOutputConstraints_def Let_def split: if_splits)
  have r: "int (length (lp_rows (lp s))) = numInitConstraints s"
    using assms u w
    by (simp add: setOutputConstraints_def Let_def glp_get_num_rows_def split: if_splits)
  from assms u w r obtain s2 where
    b: "(if 0 < rhsLen
         then add_constraint_rows ?s1 mat w rhs rhsLen (numInitConstraints ?s1) (numInitVars ?s1)
         else Inr ?s1) = Inr s2"
    and a: "add_basis_rows s2 = Inr s'"
    by (auto simp: setOutputConstraints_def Let_def glp_get_num_rows_def split: sum.splits)
  obtain P2 where s2: "s2 = ?s1\<lparr>lp := P2\<rparr>"
    and P2: "same_except_rows
       ((lp s)\<lparr>lp_rows := lp_rows (lp s) @ replicate (nat (if 0 < rhsLen then rhsLen else 0)) new_row\<rparr>) P2"
  proof (cases "0 < rhsLen")
    case True
    with b have "add_constraint_rows ?s1 mat w rhs rhsLen (numInitConstraints ?s1) (numInitVars ?s1) = Inr s2"
      by (simp only: if_True)
    then obtain P' where "s2 = ?s1\<lparr>lp := P'\<rparr>"
      and "same_except_rows ((lp ?s1)\<lparr>lp_rows := lp_rows (lp ?s1) @ replicate (nat rhsLen) new_row\<rparr>) P'"
      by (rule add_constraint_rows_Inr)
    then show ?thesis using that [of P'] True by simp
  next
    case False
    with b have "s2 = ?s1" by simp
    then show ?thesis using that [of "lp s"] False by (simp add: same_except_rows_def)
  qed
  from a obtain P' where s': "s' = s2\<lparr>lp := P'\<rparr>" and n: "1 \<le> numOutputVars s2"
    and lo: "0 \<le> numInitConstraints s2 + numOutputConstraints s2"
    and P': "same_except_rows
           ((lp s2)\<lparr>lp_rows := lp_rows (lp s2) @ replicate (nat (numOutputVars s2)) new_row\<rparr>) P'"
    by (rule add_basis_rows_Inr)
  have 1: "s' = s\<lparr>numOutputConstraints := rhsLen, lp := P'\<rparr>" using s' s2 by simp
  have 2: "same_except_rows ((lp s)\<lparr>lp_rows := lp_rows P'\<rparr>) P'"
    using P' P2 s2 by (simp add: same_except_rows_def)
  have 3: "int (length (lp_rows P')) =
           numInitConstraints s + (if 0 < rhsLen then rhsLen else 0) + numOutputVars s"
    using P' P2 s2 n r by (simp add: same_except_rows_def)
  show ?thesis using that [OF 1 u w r _ _ 2 3] n lo s2 by simp
qed

lemma for_loop_total:
  assumes "\<And>r P. i \<le> r \<Longrightarrow> r < i + k \<Longrightarrow> Q P \<Longrightarrow> \<exists>P'. body r P = Some P' \<and> Q P'" and "Q P"
  shows "\<exists>P'. for_loop i k body P = Inr P' \<and> Q P'"
  using assms
proof (induction k arbitrary: i P)
  case 0
  then show ?case by simp
next
  case (Suc k)
  from Suc.prems(1) [of i P] Suc.prems(2) obtain P1 where b: "body i P = Some P1" and q: "Q P1"
    by auto
  have "\<exists>P'. for_loop (Suc i) k body P1 = Inr P' \<and> Q P'"
  proof (rule Suc.IH)
    show "\<And>r P. Suc i \<le> r \<Longrightarrow> r < Suc i + k \<Longrightarrow> Q P \<Longrightarrow> \<exists>P'. body r P = Some P' \<and> Q P'"
      using Suc.prems(1) by simp
    show "Q P1" by (rule q)
  qed
  then show ?case using b by simp
qed

lemma dense_row_ok:
  assumes "0 \<le> off" and "off + w \<le> int n"
  shows "int (length (dense_row mat row w off)) \<le> int n"
    and "list_all (\<lambda>(j, v). in_range j (int n)) (dense_row mat row w off)"
    and "distinct (map fst (dense_row mat row w off))"
proof -
  have "length (dense_row mat row w off) \<le> nat w"
    unfolding dense_row_def
    by (rule order_trans [OF length_filter_le]) simp
  then show "int (length (dense_row mat row w off)) \<le> int n" using assms by linarith
  show "list_all (\<lambda>(j, v). in_range j (int n)) (dense_row mat row w off)"
    using assms by (auto simp: dense_row_def list_all_iff in_range_def)
  have "distinct (map fst (map (\<lambda>i. (off + int i + 1, mat ! nat (row * w + int i))) [0..<nat w]))"
    by (simp add: distinct_map comp_def inj_on_def)
  then show "distinct (map fst (dense_row mat row w off))"
    unfolding dense_row_def by (rule distinct_map_filter)
qed

lemma glp_set_row_bnds_total:
  assumes "1 \<le> i" and "i \<le> int (length (lp_rows P))"
  shows "\<exists>P'. glp_set_row_bnds P i ty lb ub = Some P' \<and> same_except_rows P P'"
  using assms by (simp add: glp_set_row_bnds_def in_range_def glp_get_num_rows_def Let_def
      same_except_rows_def)

lemma glp_set_mat_row_total:
  assumes "1 \<le> i" and "i \<le> int (length (lp_rows P))"
    and "int (length es) \<le> int (length (lp_cols P))"
    and "list_all (\<lambda>(j, v). in_range j (int (length (lp_cols P)))) es"
    and "distinct (map fst es)"
  shows "\<exists>P'. glp_set_mat_row P i es = Some P' \<and> same_except_rows P P'"
  using assms by (simp add: glp_set_mat_row_def in_range_def glp_get_num_rows_def
      glp_get_num_cols_def same_except_rows_def)

lemma add_constraint_rows_total:
  assumes n: "1 \<le> rhsLen" and rhs: "can_read rhs rhsLen" and mat: "can_read mat (rhsLen * w)"
    and w: "0 \<le> w" and off: "0 \<le> off" "off + w \<le> int (length (lp_cols (lp s)))"
    and base: "base = int (length (lp_rows (lp s)))"
  shows "\<exists>s'. add_constraint_rows s mat w rhs rhsLen base off = Inr s'"
proof -
  let ?P1 = "(lp s)\<lparr>lp_rows := lp_rows (lp s) @ replicate (nat rhsLen) new_row\<rparr>"
  let ?Q = "\<lambda>P. same_except_rows ?P1 P"
  have a: "glp_add_rows (lp s) rhsLen = Some ?P1" using n by (simp add: glp_add_rows_def)
  have "\<exists>P2. for_loop 0 (nat rhsLen)
           (\<lambda>r P. glp_set_row_bnds P (base + int r + 1) GLP_UP 0 (rhs ! r)) ?P1 = Inr P2 \<and> ?Q P2"
  proof (rule for_loop_total)
    show "?Q ?P1" by simp
  next
    fix r and P :: glp_prob
    assume r: "r < 0 + nat rhsLen" and q: "?Q P"
    have "1 \<le> base + int r + 1" "base + int r + 1 \<le> int (length (lp_rows P))"
      using r q base n by (simp_all add: same_except_rows_def)
    from glp_set_row_bnds_total [OF this]
    show "\<exists>P'. glp_set_row_bnds P (base + int r + 1) GLP_UP 0 (rhs ! r) = Some P' \<and> ?Q P'"
      using q same_except_rows_trans by blast
  qed
  then obtain P2 where l1: "for_loop 0 (nat rhsLen)
           (\<lambda>r P. glp_set_row_bnds P (base + int r + 1) GLP_UP 0 (rhs ! r)) ?P1 = Inr P2"
    and q2: "?Q P2" by blast
  have "\<exists>P3. for_loop 0 (nat rhsLen)
           (\<lambda>row P. glp_set_mat_row P (base + int row + 1) (dense_row mat (int row) w off)) P2
             = Inr P3 \<and> ?Q P3"
  proof (rule for_loop_total)
    show "?Q P2" by (rule q2)
  next
    fix r and P :: glp_prob
    assume r: "r < 0 + nat rhsLen" and q: "?Q P"
    have c: "lp_cols P = lp_cols (lp s)" using q by (simp add: same_except_rows_def)
    have 1: "1 \<le> base + int r + 1" "base + int r + 1 \<le> int (length (lp_rows P))"
      using r q base n by (simp_all add: same_except_rows_def)
    from glp_set_mat_row_total [OF 1, of "dense_row mat (int r) w off"]
      dense_row_ok [OF off, of mat "int r"]
    show "\<exists>P'. glp_set_mat_row P (base + int r + 1) (dense_row mat (int r) w off) = Some P'
            \<and> ?Q P'"
      using q c same_except_rows_trans by auto
  qed
  then obtain P3 where l2: "for_loop 0 (nat rhsLen)
           (\<lambda>row P. glp_set_mat_row P (base + int row + 1) (dense_row mat (int row) w off)) P2
             = Inr P3" by blast
  show ?thesis using a rhs mat w l1 l2 by (simp add: add_constraint_rows_def)
qed

lemma add_basis_rows_total:
  assumes "1 \<le> numOutputVars s"
    and "numInitConstraints s + numOutputConstraints s = int (length (lp_rows (lp s)))"
  shows "\<exists>s'. add_basis_rows s = Inr s'"
proof -
  let ?P1 = "(lp s)\<lparr>lp_rows := lp_rows (lp s) @ replicate (nat (numOutputVars s)) new_row\<rparr>"
  let ?Q = "\<lambda>P. same_except_rows ?P1 P"
  let ?body = "\<lambda>r P. glp_set_row_bnds P
                  (numInitConstraints s + numOutputConstraints s + int r + 1) GLP_FX 0 0"
  have a: "glp_add_rows (lp s) (numOutputVars s) = Some ?P1"
    using assms(1) by (simp add: glp_add_rows_def)
  have "\<exists>P2. for_loop 0 (nat (numOutputVars s)) ?body ?P1 = Inr P2 \<and> ?Q P2"
  proof (rule for_loop_total)
    show "?Q ?P1" by simp
  next
    fix r and P :: glp_prob
    assume r: "r < 0 + nat (numOutputVars s)" and q: "?Q P"
    have "1 \<le> numInitConstraints s + numOutputConstraints s + int r + 1"
      "numInitConstraints s + numOutputConstraints s + int r + 1 \<le> int (length (lp_rows P))"
      using r q assms by (simp_all add: same_except_rows_def)
    from glp_set_row_bnds_total [OF this]
    show "\<exists>P'. ?body r P = Some P' \<and> ?Q P'"
      using q same_except_rows_trans by blast
  qed
  then obtain P2 where "for_loop 0 (nat (numOutputVars s)) ?body ?P1 = Inr P2" by blast
  then show ?thesis using a by (simp add: add_basis_rows_def)
qed

lemma setInitConstraints_total:
  assumes "numInitConstraints s = - 1" and "lp_rows (lp s) = []"
    and "1 \<le> rhsLen" and "can_read rhs rhsLen" and "can_read mat (rhsLen * numInitVars s)"
    and "0 \<le> numInitVars s" and "numInitVars s \<le> int (length (lp_cols (lp s)))"
  shows "\<exists>s'. setInitConstraints s mat (numInitVars s) rhsLen rhs rhsLen = Inr s'"
proof -
  let ?s1 = "s\<lparr>numInitConstraints := rhsLen\<rparr>"
  have "\<exists>s'. add_constraint_rows ?s1 mat (numInitVars s) rhs rhsLen 0 0 = Inr s'"
    by (rule add_constraint_rows_total) (use assms in simp_all)
  then show ?thesis
    using assms(1,2) by (simp add: setInitConstraints_def Let_def glp_get_num_rows_def)
qed

lemma setOutputConstraints_total:
  assumes u: "numOutputConstraints s = - 1"
    and r: "int (length (lp_rows (lp s))) = numInitConstraints s"
    and v: "1 \<le> numOutputVars s" and n: "0 \<le> rhsLen"
    and rhs: "can_read rhs rhsLen" and mat: "can_read mat (rhsLen * numOutputVars s)"
    and c: "0 \<le> numInitVars s"
      "numInitVars s + numOutputVars s \<le> int (length (lp_cols (lp s)))"
  shows "\<exists>s'. setOutputConstraints s mat (numOutputVars s) h rhs rhsLen = Inr s'"
proof -
  let ?s1 = "s\<lparr>numOutputConstraints := rhsLen\<rparr>"
  have "\<exists>s2. (if numOutputConstraints ?s1 > 0
               then add_constraint_rows ?s1 mat (numOutputVars s) rhs rhsLen
                      (numInitConstraints ?s1) (numInitVars ?s1)
               else Inr ?s1) = Inr s2
            \<and> numOutputVars s2 = numOutputVars s
            \<and> numInitConstraints s2 + numOutputConstraints s2 = int (length (lp_rows (lp s2)))"
  proof (cases "0 < rhsLen")
    case True
    have "\<exists>s2. add_constraint_rows ?s1 mat (numOutputVars s) rhs rhsLen
                      (numInitConstraints ?s1) (numInitVars ?s1) = Inr s2"
      by (rule add_constraint_rows_total) (use True rhs mat v c r in simp_all)
    then obtain s2 where a: "add_constraint_rows ?s1 mat (numOutputVars s) rhs rhsLen
                      (numInitConstraints ?s1) (numInitVars ?s1) = Inr s2" ..
    then obtain P' where "s2 = ?s1\<lparr>lp := P'\<rparr>"
      and "same_except_rows
             ((lp ?s1)\<lparr>lp_rows := lp_rows (lp ?s1) @ replicate (nat rhsLen) new_row\<rparr>) P'"
      by (rule add_constraint_rows_Inr)
    then show ?thesis using a True r by (simp add: same_except_rows_def)
  next
    case False
    then show ?thesis using n r by simp
  qed
  then obtain s2 where b: "(if numOutputConstraints ?s1 > 0
               then add_constraint_rows ?s1 mat (numOutputVars s) rhs rhsLen
                      (numInitConstraints ?s1) (numInitVars ?s1)
               else Inr ?s1) = Inr s2"
    and v2: "numOutputVars s2 = numOutputVars s"
    and r2: "numInitConstraints s2 + numOutputConstraints s2 = int (length (lp_rows (lp s2)))"
    by blast
  have "\<exists>s'. add_basis_rows s2 = Inr s'"
    by (rule add_basis_rows_total) (use v v2 r2 in simp_all)
  then show ?thesis
    using u r b by (simp add: setOutputConstraints_def Let_def glp_get_num_rows_def)
qed

lemma rows_eq_mapI:
  assumes "same_except_rows P P'"
    and "\<forall>n<length (lp_rows P). lp_rows P' ! n = f (lp_rows P ! n)"
  shows "P' = P\<lparr>lp_rows := map f (lp_rows P)\<rparr>"
proof -
  have "lp_rows P' = map f (lp_rows P)"
    using assms by (intro nth_equalityI) (simp_all add: same_except_rows_def)
  then show ?thesis using same_except_rows_eq [OF assms(1)] by simp
qed

lemma cols_eq_mapI:
  assumes "same_except_cols P P'"
    and "\<forall>n<length (lp_cols P). lp_cols P' ! n = f (lp_cols P ! n)"
  shows "P' = P\<lparr>lp_cols := map f (lp_cols P)\<rparr>"
proof -
  have "lp_cols P' = map f (lp_cols P)"
    using assms by (intro nth_equalityI) (simp_all add: same_except_cols_def)
  then show ?thesis using same_except_cols_eq [OF assms(1)] by simp
qed

lemma reset_rows_loop:
  "for_loop 0 (length (lp_rows P)) (\<lambda>r P. glp_set_row_stat P (int r + 1) GLP_BS) P
     = Inr (P\<lparr>lp_rows := map (\<lambda>r. r\<lparr>row_stat := GLP_BS\<rparr>) (lp_rows P)\<rparr>)"
proof -
  let ?body = "\<lambda>r P. glp_set_row_stat P (int r + 1) GLP_BS"
  have "\<exists>P'. for_loop 0 (length (lp_rows P)) ?body P = Inr P' \<and> same_except_rows P P' \<and>
           (\<forall>n<length (lp_rows P). lp_rows P' ! n =
              (if 0 + 0 \<le> n \<and> n < 0 + 0 + length (lp_rows P)
               then (\<lambda>r row. row\<lparr>row_stat := GLP_BS\<rparr>) (n - 0) (lp_rows P ! n)
               else lp_rows P ! n))"
    by (rule for_loop_rows_nth [where C = "lp_cols P"])
       (simp_all add: glp_set_row_stat_def in_range_def glp_get_num_rows_def Let_def)
  then obtain P' where l: "for_loop 0 (length (lp_rows P)) ?body P = Inr P'"
    and s: "same_except_rows P P'"
    and n: "\<forall>n<length (lp_rows P). lp_rows P' ! n = (lp_rows P ! n)\<lparr>row_stat := GLP_BS\<rparr>"
    by auto
  show ?thesis using l rows_eq_mapI [OF s n] by simp
qed

lemma reset_cols_loop:
  "for_loop 0 (length (lp_cols P)) (\<lambda>c P. glp_set_col_stat P (int c + 1) GLP_NF) P
     = Inr (P\<lparr>lp_cols := map (\<lambda>c. c\<lparr>col_stat := nonbasic_stat (col_type c) GLP_NF\<rparr>) (lp_cols P)\<rparr>)"
proof -
  let ?body = "\<lambda>c P. glp_set_col_stat P (int c + 1) GLP_NF"
  have "\<exists>P'. for_loop 0 (length (lp_cols P)) ?body P = Inr P' \<and> same_except_cols P P' \<and>
           (\<forall>n<length (lp_cols P). lp_cols P' ! n =
              (if 0 + 0 \<le> n \<and> n < 0 + 0 + length (lp_cols P)
               then (\<lambda>r c. c\<lparr>col_stat := nonbasic_stat (col_type c) GLP_NF\<rparr>) (n - 0) (lp_cols P ! n)
               else lp_cols P ! n))"
    by (rule for_loop_cols_nth)
       (simp_all add: glp_set_col_stat_def in_range_def glp_get_num_cols_def Let_def)
  then obtain P' where l: "for_loop 0 (length (lp_cols P)) ?body P = Inr P'"
    and s: "same_except_cols P P'"
    and n: "\<forall>n<length (lp_cols P). lp_cols P' ! n =
              (lp_cols P ! n)\<lparr>col_stat := nonbasic_stat (col_type (lp_cols P ! n)) GLP_NF\<rparr>"
    by auto
  show ?thesis using l cols_eq_mapI [OF s, of "\<lambda>c. c\<lparr>col_stat := nonbasic_stat (col_type c) GLP_NF\<rparr>"] n by simp
qed

lemma resetLp_eq: "resetLp s = Inr (s\<lparr>lp := reset_basis (lp s)\<rparr>)"
  using reset_rows_loop [of "lp s"]
    reset_cols_loop [of "(lp s)\<lparr>lp_rows := map (\<lambda>r. r\<lparr>row_stat := GLP_BS\<rparr>) (lp_rows (lp s))\<rparr>"]
  by (simp add: resetLp_def reset_basis_def glp_get_num_rows_def glp_get_num_cols_def)

lemma sint_add_of_nat:
  fixes x :: "32 word"
  assumes "sint x + int n \<le> 2147483647"
  shows "sint (x + of_nat n) = sint x + int n"
proof -
  have "x + of_nat n = word_of_int (sint x + int n)" by simp
  moreover have "- 2147483648 \<le> sint x" using sint_ge [of x] by simp
  ultimately show ?thesis
    using assms by (simp only: sint_sbintrunc' signed_take_bit_int_eq_self_iff) simp
qed

lemma store_report_simps [simp]:
  "length (lp_rows (store_report P rep)) = length (lp_rows P)"
  "length (lp_cols (store_report P rep)) = length (lp_cols P)"
  "lp_it_cnt (store_report P rep) = lp_it_cnt P + of_nat (sr_iters rep)"
  "lp_status (store_report P rep) = sr_status rep"
  "lp_dir (store_report P rep) = lp_dir P"
  "lp_c0 (store_report P rep) = lp_c0 P"
  by (simp_all add: store_report_def)

lemma map_enumerate_proj:
  assumes "\<And>i x. h (i, x) = f x"
  shows "map h (enumerate n xs) = map f xs"
  using assms by (induction xs arbitrary: n) simp_all

lemma store_report_col_type [simp]:
  "map col_type (lp_cols (store_report P rep)) = map col_type (lp_cols P)"
  unfolding store_report_def by (simp, rule map_enumerate_proj) simp

lemma store_report_col_obj [simp]:
  "map col_obj (lp_cols (store_report P rep)) = map col_obj (lp_cols P)"
  unfolding store_report_def by (simp, rule map_enumerate_proj) simp

lemma reset_basis_simps [simp]:
  "length (lp_rows (reset_basis P)) = length (lp_rows P)"
  "length (lp_cols (reset_basis P)) = length (lp_cols P)"
  "lp_it_cnt (reset_basis P) = lp_it_cnt P"
  "lp_status (reset_basis P) = lp_status P"
  "map col_type (lp_cols (reset_basis P)) = map col_type (lp_cols P)"
  "map col_obj (lp_cols (reset_basis P)) = map col_obj (lp_cols P)"
  by (simp_all add: reset_basis_def)

lemma simplex_with_retry_eq:
  "simplex_with_retry solve s =
     (if sr_ret (solve (lp s)) \<noteq> 0
      then Inr (sr_ret (solve (reset_basis (solved solve (lp s)))),
                s\<lparr>lp := solved solve (reset_basis (solved solve (lp s)))\<rparr>)
      else Inr (0, s\<lparr>lp := solved solve (lp s)\<rparr>))"
  by (simp add: simplex_with_retry_def glp_simplex_def resetLp_eq solved_def)

lemma simplex_with_retry_Inr:
  assumes "simplex_with_retry solve s = Inr (ret, s')"
  obtains P' where "s' = s\<lparr>lp := P'\<rparr>"
    and "length (lp_rows P') = length (lp_rows (lp s))"
    and "length (lp_cols P') = length (lp_cols (lp s))"
    and "map col_type (lp_cols P') = map col_type (lp_cols (lp s))"
    and "map col_obj (lp_cols P') = map col_obj (lp_cols (lp s))"
proof (cases "sr_ret (solve (lp s)) \<noteq> 0")
  case True
  with assms have "s' = s\<lparr>lp := solved solve (reset_basis (solved solve (lp s)))\<rparr>"
    by (simp add: simplex_with_retry_eq)
  then show ?thesis
    using that [of "solved solve (reset_basis (solved solve (lp s)))"]
    by (simp add: solved_def)
next
  case False
  with assms have "s' = s\<lparr>lp := solved solve (lp s)\<rparr>"
    by (simp add: simplex_with_retry_eq)
  then show ?thesis using that [of "solved solve (lp s)"] by (simp add: solved_def)
qed

lemma glp_set_obj_coef_Some:
  assumes "glp_set_obj_coef P j v = Some P'"
  shows "lp_rows P' = lp_rows P \<and> lp_it_cnt P' = lp_it_cnt P \<and> lp_status P' = lp_status P
         \<and> length (lp_cols P') = length (lp_cols P)
         \<and> map col_type (lp_cols P') = map col_type (lp_cols P)
         \<and> (m \<le> j - 1 \<longrightarrow> take (nat m) (lp_cols P') = take (nat m) (lp_cols P))"
proof (cases "j = 0")
  case True
  with assms show ?thesis by (auto simp: glp_set_obj_coef_def split: if_splits)
next
  case False
  with assms have j: "0 < j" "j \<le> int (length (lp_cols P))"
    and P': "P' = P\<lparr>lp_cols := (lp_cols P)[nat (j - 1) :=
                (lp_cols P ! nat (j - 1))\<lparr>col_obj := v\<rparr>]\<rparr>"
    by (auto simp: glp_set_obj_coef_def glp_get_num_cols_def split: if_splits)
  have "map col_type (lp_cols P') = map col_type (lp_cols P)"
    using j by (simp add: P' map_update list_update_same_conv)
  moreover have "m \<le> j - 1 \<longrightarrow> take (nat m) (lp_cols P') = take (nat m) (lp_cols P)"
    by (simp add: P' nat_mono)
  ultimately show ?thesis by (simp add: P')
qed

lemma set_direction_Inr:
  assumes "set_direction s d = Inr P0"
  shows "lp_rows P0 = lp_rows (lp s) \<and> lp_it_cnt P0 = lp_it_cnt (lp s)
         \<and> length (lp_cols P0) = length (lp_cols (lp s))
         \<and> map col_type (lp_cols P0) = map col_type (lp_cols (lp s))
         \<and> take (nat (numInitVars s)) (lp_cols P0) = take (nat (numInitVars s)) (lp_cols (lp s))"
  using assms [unfolded set_direction_def]
proof (rule for_loop_Inr_inv)
  show "lp_rows (lp s) = lp_rows (lp s) \<and> lp_it_cnt (lp s) = lp_it_cnt (lp s)
         \<and> length (lp_cols (lp s)) = length (lp_cols (lp s))
         \<and> map col_type (lp_cols (lp s)) = map col_type (lp_cols (lp s))
         \<and> take (nat (numInitVars s)) (lp_cols (lp s)) = take (nat (numInitVars s)) (lp_cols (lp s))"
    by simp
next
  fix i P P'
  assume b: "glp_set_obj_coef P (1 + numInitVars s + int i) (d ! i) = Some P'"
    and q: "lp_rows P = lp_rows (lp s) \<and> lp_it_cnt P = lp_it_cnt (lp s)
         \<and> length (lp_cols P) = length (lp_cols (lp s))
         \<and> map col_type (lp_cols P) = map col_type (lp_cols (lp s))
         \<and> take (nat (numInitVars s)) (lp_cols P) = take (nat (numInitVars s)) (lp_cols (lp s))"
  from glp_set_obj_coef_Some [OF b, of "numInitVars s"] q
  show "lp_rows P' = lp_rows (lp s) \<and> lp_it_cnt P' = lp_it_cnt (lp s)
         \<and> length (lp_cols P') = length (lp_cols (lp s))
         \<and> map col_type (lp_cols P') = map col_type (lp_cols (lp s))
         \<and> take (nat (numInitVars s)) (lp_cols P') = take (nat (numInitVars s)) (lp_cols (lp s))"
    by simp
qed

lemma solve_and_report_Inr:
  assumes "solve_and_report solve g s res rl = Inr (g', s', rv, res')"
  obtains ret where "simplex_with_retry solve s = Inr (ret, s')"
    and "g' = g\<lparr>iterations := iterations g + (lp_it_cnt (lp s') - lp_it_cnt (lp s)),
                optimizations := optimizations g + 1\<rparr>"
    and "processSimplexResult s' ret res rl = Inr (rv, res')"
  using assms
  by (auto simp: solve_and_report_def Let_def glp_get_it_cnt_def
        split: sum.splits prod.splits)

lemma minimize_Inr:
  assumes "minimize solve g s d dl res rl = Inr (g', s', rv, res')"
  obtains P0 ret where "numInitConstraints s \<noteq> - 1" and "numOutputConstraints s \<noteq> - 1"
    and "dl = numOutputVars s" and "set_direction s d = Inr P0"
    and "simplex_with_retry solve (s\<lparr>lp := P0\<rparr>) = Inr (ret, s')"
    and "g' = g\<lparr>iterations := iterations g + (lp_it_cnt (lp s') - lp_it_cnt P0),
                optimizations := optimizations g + 1\<rparr>"
    and "processSimplexResult s' ret res rl = Inr (rv, res')"
proof -
  from assms obtain P0 where c: "numInitConstraints s \<noteq> - 1" "numOutputConstraints s \<noteq> - 1"
      "dl = numOutputVars s"
    and d: "set_direction s d = Inr P0"
    and r: "solve_and_report solve g (s\<lparr>lp := P0\<rparr>) res rl = Inr (g', s', rv, res')"
    by (auto simp: minimize_def split: if_splits sum.splits)
  from r obtain ret where "simplex_with_retry solve (s\<lparr>lp := P0\<rparr>) = Inr (ret, s')"
    and "g' = g\<lparr>iterations := iterations g + (lp_it_cnt (lp s') - lp_it_cnt (lp (s\<lparr>lp := P0\<rparr>))),
                optimizations := optimizations g + 1\<rparr>"
    and "processSimplexResult s' ret res rl = Inr (rv, res')"
    by (rule solve_and_report_Inr)
  then show ?thesis using that [OF c d] by simp
qed

lemma glp_set_mat_row_Some:
  assumes "glp_set_mat_row P i es = Some P'"
  shows "same_except_rows P P'
         \<and> map (\<lambda>r. r\<lparr>row_coefs := []\<rparr>) (lp_rows P') = map (\<lambda>r. r\<lparr>row_coefs := []\<rparr>) (lp_rows P)
         \<and> (m \<le> i - 1 \<longrightarrow> take (nat m) (lp_rows P') = take (nat m) (lp_rows P))"
proof -
  from assms have i: "1 \<le> i" "i \<le> int (length (lp_rows P))"
    and P': "P' = P\<lparr>lp_rows := (lp_rows P)[nat (i - 1) :=
        (lp_rows P ! nat (i - 1))\<lparr>row_coefs := filter (\<lambda>(j, v). v \<noteq> 0) es\<rparr>]\<rparr>"
    by (auto simp: glp_set_mat_row_def in_range_def glp_get_num_rows_def split: if_splits)
  have "map (\<lambda>r. r\<lparr>row_coefs := []\<rparr>) (lp_rows P') = map (\<lambda>r. r\<lparr>row_coefs := []\<rparr>) (lp_rows P)"
    using i by (simp add: P' map_update list_update_same_conv)
  moreover have "m \<le> i - 1 \<longrightarrow> take (nat m) (lp_rows P') = take (nat m) (lp_rows P)"
    by (simp add: P' nat_mono)
  moreover have "same_except_rows P P'" by (simp add: P' same_except_rows_def)
  ultimately show ?thesis by simp
qed

lemma updateBasisMatrix_Inr:
  assumes "updateBasisMatrix s mat w h = Inr s'"
  obtains P' where "s' = s\<lparr>lp := P'\<rparr>" and "numOutputConstraints s \<noteq> - 1"
    and "w = numInitVars s" and "h = numOutputVars s"
    and "same_except_rows (lp s) P'"
    and "map (\<lambda>r. r\<lparr>row_coefs := []\<rparr>) (lp_rows P')
           = map (\<lambda>r. r\<lparr>row_coefs := []\<rparr>) (lp_rows (lp s))"
    and "take (nat (numInitConstraints s + numOutputConstraints s)) (lp_rows P')
           = take (nat (numInitConstraints s + numOutputConstraints s)) (lp_rows (lp s))"
proof -
  let ?b = "numInitConstraints s + numOutputConstraints s"
  let ?body = "\<lambda>r P. glp_set_mat_row P (?b + int r + 1) (basis_row mat (int r) w)"
  let ?Q = "\<lambda>P'. same_except_rows (lp s) P'
         \<and> map (\<lambda>r. r\<lparr>row_coefs := []\<rparr>) (lp_rows P') = map (\<lambda>r. r\<lparr>row_coefs := []\<rparr>) (lp_rows (lp s))
         \<and> take (nat ?b) (lp_rows P') = take (nat ?b) (lp_rows (lp s))"
  from assms obtain P' where c: "numOutputConstraints s \<noteq> - 1" "w = numInitVars s" "h = numOutputVars s"
    and l: "for_loop 0 (nat (numOutputVars s)) ?body (lp s) = Inr P'"
    and s': "s' = s\<lparr>lp := P'\<rparr>"
    by (auto simp: updateBasisMatrix_def split: if_splits sum.splits)
  have "?Q P'"
    using l
  proof (rule for_loop_Inr_inv)
    show "?Q (lp s)" by simp
  next
    fix i P P1
    assume b: "?body i P = Some P1" and q: "?Q P"
    from glp_set_mat_row_Some [OF b, of ?b] q
    show "?Q P1" by (auto intro: same_except_rows_trans)
  qed
  then show ?thesis using that [OF s' c] by simp
qed







lemma set_direction_works:
  assumes v: "0 \<le> numInitVars s" "0 \<le> numOutputVars s"
    and c: "int (length (lp_cols (lp s))) = numInitVars s + numOutputVars s"
  shows "\<exists>P0. set_direction s d = Inr P0 \<and> same_except_cols (lp s) P0
           \<and> (\<forall>n<length (lp_cols (lp s)). lp_cols P0 ! n =
                (if nat (numInitVars s) \<le> n \<and> n < nat (numInitVars s) + nat (numOutputVars s)
                 then (lp_cols (lp s) ! n)\<lparr>col_obj := d ! (n - nat (numInitVars s))\<rparr>
                 else lp_cols (lp s) ! n))"
proof -
  let ?m = "nat (numInitVars s)"
  let ?body = "\<lambda>i P. glp_set_obj_coef P (1 + numInitVars s + int i) (d ! i)"
  let ?F = "\<lambda>r c. c\<lparr>col_obj := d ! r\<rparr>"
  have "\<exists>P'. for_loop 0 (nat (numOutputVars s)) ?body (lp s) = Inr P' \<and> same_except_cols (lp s) P' \<and>
           (\<forall>n<length (lp_cols (lp s)). lp_cols P' ! n =
              (if ?m + 0 \<le> n \<and> n < ?m + 0 + nat (numOutputVars s)
               then ?F (n - ?m) (lp_cols (lp s) ! n) else lp_cols (lp s) ! n))"
  proof (rule for_loop_cols_nth)
    fix r and P :: glp_prob
    assume len: "?m + r < length (lp_cols P)"
    have idx: "nat (1 + numInitVars s + int r - 1) = ?m + r" using v by (simp add: nat_add_distrib)
    show "?body r P = Some (P\<lparr>lp_cols := (lp_cols P)[?m + r := ?F r (lp_cols P ! (?m + r))]\<rparr>)"
      using len v idx by (simp add: glp_set_obj_coef_def glp_get_num_cols_def)
  next
    show "?m + 0 + nat (numOutputVars s) \<le> length (lp_cols (lp s))"
      using c v by linarith
  qed
  then show ?thesis by (simp add: set_direction_def)
qed

lemma write_prims_length [simp]: "length (write_prims P col k res) = length res"
  by (induction k arbitrary: col res) simp_all

lemma write_prims_nth:
  "col + k \<le> length res \<Longrightarrow>
     write_prims P col k res ! i =
       (if col \<le> i \<and> i < col + k then glp_get_col_prim P (int i + 1) else res ! i)"
proof (induction k arbitrary: col res)
  case 0
  then show ?case by simp
next
  case (Suc k)
  then show ?case by (cases "i = col") (auto simp: nth_list_update)
qed

lemma write_prims_beyond:
  "col + k \<le> i \<Longrightarrow> write_prims P col k res ! i = res ! i"
  by (induction k arbitrary: col res) simp_all

lemma free_cols_loop:
  "for_loop 0 n (\<lambda>i P. glp_set_col_bnds P (int i + 1) GLP_FR 0 0)
       (P\<lparr>lp_cols := replicate n new_col\<rparr>)
     = Inr (P\<lparr>lp_cols := replicate n free_col\<rparr>)"
proof -
  let ?P = "P\<lparr>lp_cols := replicate n new_col\<rparr>"
  let ?body = "\<lambda>i P. glp_set_col_bnds P (int i + 1) GLP_FR 0 0"
  let ?F = "\<lambda>(r::nat) c. c\<lparr>col_type := GLP_FR, col_lb := 0, col_ub := 0,
             col_stat := bnds_stat GLP_FR 0 0 (col_stat c)\<rparr>"
  have "\<exists>P'. for_loop 0 n ?body ?P = Inr P' \<and> same_except_cols ?P P' \<and>
           (\<forall>k<length (lp_cols ?P). lp_cols P' ! k =
              (if 0 + 0 \<le> k \<and> k < 0 + 0 + n then ?F (k - 0) (lp_cols ?P ! k) else lp_cols ?P ! k))"
    by (rule for_loop_cols_nth)
       (simp_all add: glp_set_col_bnds_def in_range_def glp_get_num_cols_def Let_def)
  then obtain P' where l: "for_loop 0 n ?body ?P = Inr P'"
    and s: "same_except_cols ?P P'"
    and k: "\<forall>k<n. lp_cols P' ! k = free_col"
    by (auto simp: new_col_def free_col_def)
  have "lp_cols P' = replicate n free_col"
    using s k by (intro nth_equalityI) (simp_all add: same_except_cols_def)
  then show ?thesis using l same_except_cols_eq [OF s] by simp
qed

lemma LpData_new_Inr:
  assumes "LpData_new nOut nInit nIn = Inr s"
  shows "0 < nOut \<and> 0 < nInit \<and> nIn = 0
     \<and> s = \<lparr>numOutputVars = nOut, numInitVars = nInit, numInputs = 0,
            numInitConstraints = - 1, numOutputConstraints = - 1,
            inputCsrData = [], inputCsrIndices = [], inputCsrIndptr = [], inputRhs = [],
            lp = glp_create_prob\<lparr>lp_cols := replicate (nat (nOut + nInit)) free_col\<rparr>\<rparr>"
proof -
  from assms have p: "0 < nOut" "0 < nInit" "nIn = 0"
    by (auto simp: LpData_new_def split: if_splits)
  have "glp_add_cols (glp_set_obj_dir glp_create_prob GLP_MIN) (nOut + nInit)
      = Some (glp_create_prob\<lparr>lp_cols := replicate (nat (nOut + nInit)) new_col\<rparr>)"
    using p by (simp add: glp_add_cols_def glp_set_obj_dir_def glp_create_prob_def)
  then show ?thesis
    using assms p free_cols_loop [of "nat (nOut + nInit)" glp_create_prob]
    by (simp add: LpData_new_def)
qed

lemma LpData_new_wf:
  assumes "LpData_new nOut nInit nIn = Inr s"
  shows "lp_wf s" "numInitConstraints s = - 1" "numOutputConstraints s = - 1"
    "lp_rows (lp s) = []"
  using LpData_new_Inr [OF assms]
  by (auto simp: lp_wf_def free_col_def glp_create_prob_def)

lemma setInputConstraintsCsr_Inr:
  assumes "setInputConstraintsCsr s d dl ix il ip pl rhs rl = Inr s'"
  obtains a b c e where
    "s' = s\<lparr>inputCsrData := a, inputCsrIndices := b, inputCsrIndptr := c, inputRhs := e\<rparr>"
  using assms by (auto simp: setInputConstraintsCsr_def split: if_splits)

lemma minimize_Inr_lp:
  assumes "minimize solve g s d dl res rl = Inr (g', s', rv, res')"
  obtains P' where "s' = s\<lparr>lp := P'\<rparr>"
    and "numInitConstraints s \<noteq> - 1" and "numOutputConstraints s \<noteq> - 1"
    and "length (lp_rows P') = length (lp_rows (lp s))"
    and "length (lp_cols P') = length (lp_cols (lp s))"
    and "map col_type (lp_cols P') = map col_type (lp_cols (lp s))"
    and "take (nat (numInitVars s)) (map col_obj (lp_cols P'))
           = take (nat (numInitVars s)) (map col_obj (lp_cols (lp s)))"
proof -
  from assms obtain P0 ret where c: "numInitConstraints s \<noteq> - 1" "numOutputConstraints s \<noteq> - 1"
    and d: "set_direction s d = Inr P0"
    and r: "simplex_with_retry solve (s\<lparr>lp := P0\<rparr>) = Inr (ret, s')"
    by (rule minimize_Inr)
  from r obtain P' where s': "s' = s\<lparr>lp := P0\<rparr>\<lparr>lp := P'\<rparr>"
    and 1: "length (lp_rows P') = length (lp_rows (lp (s\<lparr>lp := P0\<rparr>)))"
      "length (lp_cols P') = length (lp_cols (lp (s\<lparr>lp := P0\<rparr>)))"
      "map col_type (lp_cols P') = map col_type (lp_cols (lp (s\<lparr>lp := P0\<rparr>)))"
      "map col_obj (lp_cols P') = map col_obj (lp_cols (lp (s\<lparr>lp := P0\<rparr>)))"
    by (rule simplex_with_retry_Inr)
  have "take (nat (numInitVars s)) (map col_obj (lp_cols P0))
           = take (nat (numInitVars s)) (map col_obj (lp_cols (lp s)))"
    using set_direction_Inr [OF d] by (simp add: take_map)
  then show ?thesis
    using that [of P'] s' c 1 set_direction_Inr [OF d] by simp
qed

lemma step_lp_wf:
  assumes "lp_wf s" and "step solve (g, s) c = Inr (g', s')"
  shows "lp_wf s'"
proof (cases c)
  case ResetLp
  with assms(2) have "s' = s\<lparr>lp := reset_basis (lp s)\<rparr>"
    by (simp add: with_global_def resetLp_eq)
  then show ?thesis using assms(1) by (simp add: lp_wf_def)
next
  case PrintLp
  then show ?thesis using assms by simp
next
  case (SetInputConstraintsCsr d dl ix il ip pl rhs rl)
  with assms(2) have "setInputConstraintsCsr s d dl ix il ip pl rhs rl = Inr s'"
    by (simp add: with_global_def split: sum.splits prod.splits)
  then obtain a b c e where
    "s' = s\<lparr>inputCsrData := a, inputCsrIndices := b, inputCsrIndptr := c, inputRhs := e\<rparr>"
    by (rule setInputConstraintsCsr_Inr)
  then show ?thesis using assms(1) by (simp add: lp_wf_def)
next
  case (SetInitConstraints mat w h rhs rl)
  with assms(2) have "setInitConstraints s mat w h rhs rl = Inr s'"
    by (simp add: with_global_def split: sum.splits prod.splits)
  then obtain P' where "s' = s\<lparr>numInitConstraints := rl, lp := P'\<rparr>"
    and "lp_rows (lp s) = []"
    and "same_except_rows ((lp s)\<lparr>lp_rows := replicate (nat rl) new_row\<rparr>) P'"
    by (rule setInitConstraints_Inr)
  then show ?thesis using assms(1) by (auto simp: lp_wf_def same_except_rows_def)
next
  case SetNoOutputConstraints
  with assms(2) have "setOutputConstraints s [] (numOutputVars s) 0 [] 0 = Inr s'"
    by (simp add: with_global_def setNoOutputConstraints_def split: sum.splits prod.splits if_splits)
  then obtain P' where "s' = s\<lparr>numOutputConstraints := 0, lp := P'\<rparr>"
    and "0 \<le> numInitConstraints s + 0"
    and "same_except_rows ((lp s)\<lparr>lp_rows := lp_rows P'\<rparr>) P'"
    and "int (length (lp_rows P')) =
           numInitConstraints s + (if 0 < (0::int) then 0 else 0) + numOutputVars s"
    by (rule setOutputConstraints_Inr)
  then show ?thesis using assms(1) by (auto simp: lp_wf_def same_except_rows_def)
next
  case (SetOutputConstraints mat w h rhs rl)
  with assms(2) have "setOutputConstraints s mat w h rhs rl = Inr s'"
    by (simp add: with_global_def split: sum.splits prod.splits)
  then obtain P' where "s' = s\<lparr>numOutputConstraints := rl, lp := P'\<rparr>"
    and "0 \<le> numInitConstraints s + rl"
    and "same_except_rows ((lp s)\<lparr>lp_rows := lp_rows P'\<rparr>) P'"
    and "int (length (lp_rows P')) =
           numInitConstraints s + (if 0 < rl then rl else 0) + numOutputVars s"
    by (rule setOutputConstraints_Inr)
  then show ?thesis using assms(1) by (auto simp: lp_wf_def same_except_rows_def)
next
  case (UpdateBasisMatrix mat w h)
  with assms(2) have "updateBasisMatrix s mat w h = Inr s'"
    by (simp add: with_global_def split: sum.splits prod.splits)
  then obtain P' where "s' = s\<lparr>lp := P'\<rparr>" and "same_except_rows (lp s) P'"
    by (rule updateBasisMatrix_Inr)
  then show ?thesis using assms(1) by (auto simp: lp_wf_def same_except_rows_def)
next
  case (Minimize d dl res rl)
  with assms(2) obtain rv res' where "minimize solve g s d dl res rl = Inr (g', s', rv, res')"
    by (auto split: sum.splits)
  then obtain P' where "s' = s\<lparr>lp := P'\<rparr>"
    and "length (lp_rows P') = length (lp_rows (lp s))"
    and "length (lp_cols P') = length (lp_cols (lp s))"
    and "map col_type (lp_cols P') = map col_type (lp_cols (lp s))"
    and "take (nat (numInitVars s)) (map col_obj (lp_cols P'))
           = take (nat (numInitVars s)) (map col_obj (lp_cols (lp s)))"
    by (rule minimize_Inr_lp)
  then show ?thesis using assms(1) by (simp add: lp_wf_def)
qed

lemma run_invariant:
  assumes "run solve (g, s) cs = Inr (g', s')" and "I s"
    and "\<And>g s c g' s'. I s \<Longrightarrow> step solve (g, s) c = Inr (g', s') \<Longrightarrow> I s'"
  shows "I s'"
  using assms(1,2)
proof (induction cs arbitrary: g s)
  case Nil
  then show ?case by simp
next
  case (Cons c cs)
  from Cons.prems(1) obtain g1 s1 where 1: "step solve (g, s) c = Inr (g1, s1)"
    and 2: "run solve (g1, s1) cs = Inr (g', s')"
    by (auto split: sum.splits)
  from assms(3) [OF Cons.prems(2) 1] have "I s1" .
  with 2 show ?case by (rule Cons.IH)
qed

lemma run_lp_wf:
  "run solve (g, s) cs = Inr (g', s') \<Longrightarrow> lp_wf s \<Longrightarrow> lp_wf s'"
  by (rule run_invariant [where I = lp_wf]) (auto intro: step_lp_wf)

lemma processSimplexResult_Inr:
  assumes "processSimplexResult s ret res rl = Inr (rv, res')"
  shows "(rv = 0 \<and> ret = 0 \<and> glp_get_status (lp s) = GLP_OPT
            \<and> can_read res (min rl (glp_get_num_cols (lp s)))
            \<and> res' = write_prims (lp s) 0 (nat (min rl (glp_get_num_cols (lp s)))) res)
       \<or> (rv = 1 \<and> res' = res
            \<and> (ret = GLP_ENOPFS \<or> ret = 0 \<and> glp_get_status (lp s) = GLP_NOFEAS))"
  using assms
  by (auto simp: processSimplexResult_def Let_def GLP_ENOPFS_def GLP_OPT_def GLP_NOFEAS_def
        split: if_splits)

lemma setNoOutputConstraints_Inr:
  "setNoOutputConstraints s = Inr s' \<Longrightarrow>
     setOutputConstraints s [] (numOutputVars s) 0 [] 0 = Inr s'"
  by (simp add: setNoOutputConstraints_def split: if_splits)

lemma step_Inr_facts:
  assumes "step solve (g, s) c = Inr (g', s')"
  shows "numOutputVars s' = numOutputVars s \<and> numInitVars s' = numInitVars s
     \<and> (if installs_init c
         then numInitConstraints s = - 1 \<and> lp_rows (lp s) = [] \<and> 1 \<le> numInitConstraints s'
              \<and> int (length (lp_rows (lp s'))) = numInitConstraints s'
         else numInitConstraints s' = numInitConstraints s)
     \<and> (if installs_output c
         then numOutputConstraints s = - 1
              \<and> int (length (lp_rows (lp s))) = numInitConstraints s
              \<and> int (length (lp_rows (lp s'))) =
                   numInitConstraints s
                   + (if 0 < numOutputConstraints s' then numOutputConstraints s' else 0)
                   + numOutputVars s
              \<and> 1 \<le> numOutputVars s
         else numOutputConstraints s' = numOutputConstraints s)
     \<and> (\<not> installs_init c \<and> \<not> installs_output c \<longrightarrow>
           length (lp_rows (lp s')) = length (lp_rows (lp s)))"
proof (cases c)
  case ResetLp
  with assms have "s' = s\<lparr>lp := reset_basis (lp s)\<rparr>"
    by (simp add: with_global_def resetLp_eq)
  then show ?thesis using ResetLp by simp
next
  case PrintLp
  then show ?thesis using assms by simp
next
  case (SetInputConstraintsCsr d dl ix il ip pl rhs rl)
  with assms have "setInputConstraintsCsr s d dl ix il ip pl rhs rl = Inr s'"
    by (simp add: with_global_def split: sum.splits prod.splits)
  then obtain a b c e where
    "s' = s\<lparr>inputCsrData := a, inputCsrIndices := b, inputCsrIndptr := c, inputRhs := e\<rparr>"
    by (rule setInputConstraintsCsr_Inr)
  then show ?thesis using SetInputConstraintsCsr by simp
next
  case (SetInitConstraints mat w h rhs rl)
  with assms have "setInitConstraints s mat w h rhs rl = Inr s'"
    by (simp add: with_global_def split: sum.splits prod.splits)
  then obtain P' where "s' = s\<lparr>numInitConstraints := rl, lp := P'\<rparr>"
    and "numInitConstraints s = - 1" and "lp_rows (lp s) = []" and "1 \<le> rl"
    and "same_except_rows ((lp s)\<lparr>lp_rows := replicate (nat rl) new_row\<rparr>) P'"
    by (rule setInitConstraints_Inr)
  then show ?thesis using SetInitConstraints by (simp add: same_except_rows_def)
next
  case SetNoOutputConstraints
  with assms have "setNoOutputConstraints s = Inr s'"
    by (simp add: with_global_def split: sum.splits prod.splits)
  then have "setOutputConstraints s [] (numOutputVars s) 0 [] 0 = Inr s'"
    by (rule setNoOutputConstraints_Inr)
  then obtain P' where "s' = s\<lparr>numOutputConstraints := 0, lp := P'\<rparr>"
    and "numOutputConstraints s = - 1"
    and "int (length (lp_rows (lp s))) = numInitConstraints s" and "1 \<le> numOutputVars s"
    and "int (length (lp_rows P')) =
           numInitConstraints s + (if 0 < (0::int) then 0 else 0) + numOutputVars s"
    by (rule setOutputConstraints_Inr)
  then show ?thesis using SetNoOutputConstraints by simp
next
  case (SetOutputConstraints mat w h rhs rl)
  with assms have "setOutputConstraints s mat w h rhs rl = Inr s'"
    by (simp add: with_global_def split: sum.splits prod.splits)
  then obtain P' where "s' = s\<lparr>numOutputConstraints := rl, lp := P'\<rparr>"
    and "numOutputConstraints s = - 1"
    and "int (length (lp_rows (lp s))) = numInitConstraints s" and "1 \<le> numOutputVars s"
    and "int (length (lp_rows P')) =
           numInitConstraints s + (if 0 < rl then rl else 0) + numOutputVars s"
    by (rule setOutputConstraints_Inr)
  then show ?thesis using SetOutputConstraints by simp
next
  case (UpdateBasisMatrix mat w h)
  with assms have "updateBasisMatrix s mat w h = Inr s'"
    by (simp add: with_global_def split: sum.splits prod.splits)
  then obtain P' where "s' = s\<lparr>lp := P'\<rparr>" and "same_except_rows (lp s) P'"
    by (rule updateBasisMatrix_Inr)
  then show ?thesis using UpdateBasisMatrix by (simp add: same_except_rows_def)
next
  case (Minimize d dl res rl)
  with assms obtain rv res' where "minimize solve g s d dl res rl = Inr (g', s', rv, res')"
    by (auto split: sum.splits)
  then obtain P' where "s' = s\<lparr>lp := P'\<rparr>"
    and "length (lp_rows P') = length (lp_rows (lp s))"
    by (rule minimize_Inr_lp)
  then show ?thesis using Minimize by simp
qed

lemma run_invariant_calls:
  assumes "run solve (g, s) cs = Inr (g', s')" and "I s" and "\<forall>c\<in>set cs. A c"
    and "\<And>g s c g' s'. I s \<Longrightarrow> A c \<Longrightarrow> step solve (g, s) c = Inr (g', s') \<Longrightarrow> I s'"
  shows "I s'"
  using assms(1,2,3)
proof (induction cs arbitrary: g s)
  case Nil
  then show ?case by simp
next
  case (Cons c cs)
  from Cons.prems(1) obtain g1 s1 where 1: "step solve (g, s) c = Inr (g1, s1)"
    and 2: "run solve (g1, s1) cs = Inr (g', s')"
    by (auto split: sum.splits)
  from assms(4) [OF Cons.prems(2) _ 1] Cons.prems(3) have "I s1" by simp
  with 2 Cons.prems(3) show ?case by (intro Cons.IH) simp_all
qed

lemma run_no_init:
  assumes "run solve (g, s) cs = Inr (g', s')" and "\<forall>c\<in>set cs. \<not> installs_init c"
  shows "numInitConstraints s' = numInitConstraints s"
  using assms(1) _ assms(2)
proof (rule run_invariant_calls [where I = "\<lambda>t. numInitConstraints t = numInitConstraints s"])
  show "numInitConstraints s = numInitConstraints s" by simp
next
  fix g1 s1 c g2 s2
  assume "numInitConstraints s1 = numInitConstraints s" "\<not> installs_init c"
    "step solve (g1, s1) c = Inr (g2, s2)"
  then show "numInitConstraints s2 = numInitConstraints s"
    using step_Inr_facts [of solve g1 s1 c g2 s2] by simp
qed

lemma run_no_output:
  assumes "run solve (g, s) cs = Inr (g', s')" and "\<forall>c\<in>set cs. \<not> installs_output c"
  shows "numOutputConstraints s' = numOutputConstraints s"
  using assms(1) _ assms(2)
proof (rule run_invariant_calls [where I = "\<lambda>t. numOutputConstraints t = numOutputConstraints s"])
  show "numOutputConstraints s = numOutputConstraints s" by simp
next
  fix g1 s1 c g2 s2
  assume "numOutputConstraints s1 = numOutputConstraints s" "\<not> installs_output c"
    "step solve (g1, s1) c = Inr (g2, s2)"
  then show "numOutputConstraints s2 = numOutputConstraints s"
    using step_Inr_facts [of solve g1 s1 c g2 s2] by simp
qed

lemma run_init_installed:
  assumes "run solve (g, s) cs = Inr (g', s')" and "numInitConstraints s \<noteq> - 1"
  shows "numInitConstraints s' = numInitConstraints s"
  using assms(1)
proof (rule run_invariant [where I = "\<lambda>t. numInitConstraints t = numInitConstraints s"])
  show "numInitConstraints s = numInitConstraints s" by simp
next
  fix g1 s1 c g2 s2
  assume "numInitConstraints s1 = numInitConstraints s" "step solve (g1, s1) c = Inr (g2, s2)"
  then show "numInitConstraints s2 = numInitConstraints s"
    using step_Inr_facts [of solve g1 s1 c g2 s2] assms(2) by (simp split: if_splits)
qed

lemma run_output_installed:
  assumes "run solve (g, s) cs = Inr (g', s')"
    and "numInitConstraints s \<noteq> - 1" and "numInitConstraints s < int (length (lp_rows (lp s)))"
  shows "numInitConstraints s' = numInitConstraints s
       \<and> numOutputConstraints s' = numOutputConstraints s
       \<and> numOutputVars s' = numOutputVars s
       \<and> length (lp_rows (lp s')) = length (lp_rows (lp s))"
  using assms(1)
proof (rule run_invariant [where I = "\<lambda>t. numInitConstraints t = numInitConstraints s
       \<and> numOutputConstraints t = numOutputConstraints s
       \<and> numOutputVars t = numOutputVars s
       \<and> length (lp_rows (lp t)) = length (lp_rows (lp s))"])
  show "numInitConstraints s = numInitConstraints s
       \<and> numOutputConstraints s = numOutputConstraints s
       \<and> numOutputVars s = numOutputVars s
       \<and> length (lp_rows (lp s)) = length (lp_rows (lp s))" by simp
next
  fix g1 s1 c g2 s2
  assume i: "numInitConstraints s1 = numInitConstraints s
       \<and> numOutputConstraints s1 = numOutputConstraints s
       \<and> numOutputVars s1 = numOutputVars s
       \<and> length (lp_rows (lp s1)) = length (lp_rows (lp s))"
    and st: "step solve (g1, s1) c = Inr (g2, s2)"
  show "numInitConstraints s2 = numInitConstraints s
       \<and> numOutputConstraints s2 = numOutputConstraints s
       \<and> numOutputVars s2 = numOutputVars s
       \<and> length (lp_rows (lp s2)) = length (lp_rows (lp s))"
    using step_Inr_facts [OF st] i assms(2,3) by (auto split: if_splits)
qed

lemma run_before_init:
  assumes "run solve (g, s) cs = Inr (g', s')" and "\<forall>c\<in>set cs. \<not> installs_init c"
    and "numInitConstraints s = - 1" and "numOutputConstraints s = - 1" and "lp_rows (lp s) = []"
  shows "numInitConstraints s' = - 1 \<and> numOutputConstraints s' = - 1 \<and> lp_rows (lp s') = []"
  using assms(1) _ assms(2)
proof (rule run_invariant_calls [where I = "\<lambda>t. numInitConstraints t = - 1
        \<and> numOutputConstraints t = - 1 \<and> lp_rows (lp t) = []"])
  show "numInitConstraints s = - 1 \<and> numOutputConstraints s = - 1 \<and> lp_rows (lp s) = []"
    using assms(3-5) by simp
next
  fix g1 s1 c g2 s2
  assume i: "numInitConstraints s1 = - 1 \<and> numOutputConstraints s1 = - 1 \<and> lp_rows (lp s1) = []"
    and c: "\<not> installs_init c" and st: "step solve (g1, s1) c = Inr (g2, s2)"
  have o: "\<not> installs_output c"
    using step_Inr_facts [OF st] i by (auto split: if_splits)
  show "numInitConstraints s2 = - 1 \<and> numOutputConstraints s2 = - 1 \<and> lp_rows (lp s2) = []"
    using step_Inr_facts [OF st] i c o by simp
qed

lemma installers_total:
  assumes new: "LpData_new nOut nInit nIn = Inr t0"
    and run: "run solve (g0, t0) calls0 = Inr (g1, t)"
    and calls: "\<forall>c\<in>set calls0. \<not> installs_init c"
    and i: "1 \<le> initRows" "can_read rhs1 initRows" "can_read mat1 (initRows * numInitVars t)"
    and o: "0 \<le> outputRows" "can_read rhs2 outputRows"
      "can_read mat2 (outputRows * numOutputVars t)"
  shows "\<exists>t1 t2 t3. setInitConstraints t mat1 (numInitVars t) initRows rhs1 initRows = Inr t1
           \<and> setOutputConstraints t1 mat2 (numOutputVars t) h2 rhs2 outputRows = Inr t2
           \<and> glp_get_num_rows (lp t2) = initRows + outputRows + numOutputVars t
           \<and> setNoOutputConstraints t1 = Inr t3
           \<and> glp_get_num_rows (lp t3) = initRows + numOutputVars t"
proof -
  from run_before_init [OF run calls] LpData_new_wf [OF new]
  have u: "numInitConstraints t = - 1" "numOutputConstraints t = - 1" "lp_rows (lp t) = []"
    by simp_all
  have wf: "lp_wf t" using run_lp_wf [OF run] LpData_new_wf(1) [OF new] by simp
  then have d: "0 < numOutputVars t" "0 < numInitVars t"
    "int (length (lp_cols (lp t))) = numInitVars t + numOutputVars t"
    by (simp_all add: lp_wf_def)
  have "\<exists>t1. setInitConstraints t mat1 (numInitVars t) initRows rhs1 initRows = Inr t1"
    by (rule setInitConstraints_total) (use u i d in simp_all)
  then obtain t1 where 1: "setInitConstraints t mat1 (numInitVars t) initRows rhs1 initRows = Inr t1" ..
  then obtain P1 where t1: "t1 = t\<lparr>numInitConstraints := initRows, lp := P1\<rparr>"
    and r1: "same_except_rows ((lp t)\<lparr>lp_rows := replicate (nat initRows) new_row\<rparr>) P1"
    by (rule setInitConstraints_Inr)
  have p: "numOutputConstraints t1 = - 1" "int (length (lp_rows (lp t1))) = numInitConstraints t1"
    "1 \<le> numOutputVars t1" "0 \<le> numInitVars t1"
    "numInitVars t1 + numOutputVars t1 \<le> int (length (lp_cols (lp t1)))"
    "numOutputVars t1 = numOutputVars t"
    using t1 r1 u d i(1) by (simp_all add: same_except_rows_def)
  have "\<exists>t2. setOutputConstraints t1 mat2 (numOutputVars t1) h2 rhs2 outputRows = Inr t2"
    by (rule setOutputConstraints_total) (use p o in simp_all)
  then obtain t2 where 2: "setOutputConstraints t1 mat2 (numOutputVars t) h2 rhs2 outputRows = Inr t2"
    using p(6) by auto
  then obtain P2 where "t2 = t1\<lparr>numOutputConstraints := outputRows, lp := P2\<rparr>"
    and "int (length (lp_rows P2)) =
           numInitConstraints t1 + (if 0 < outputRows then outputRows else 0) + numOutputVars t1"
    by (rule setOutputConstraints_Inr)
  then have c2: "glp_get_num_rows (lp t2) = initRows + outputRows + numOutputVars t"
    using t1 o(1) by (simp add: glp_get_num_rows_def)
  have "\<exists>t3. setOutputConstraints t1 [] (numOutputVars t1) 0 [] 0 = Inr t3"
    by (rule setOutputConstraints_total) (use p in \<open>simp_all add: can_read_def\<close>)
  then obtain t3 where 3: "setOutputConstraints t1 [] (numOutputVars t1) 0 [] 0 = Inr t3" ..
  then obtain P3 where "t3 = t1\<lparr>numOutputConstraints := 0, lp := P3\<rparr>"
    and "int (length (lp_rows P3)) =
           numInitConstraints t1 + (if 0 < (0::int) then 0 else 0) + numOutputVars t1"
    by (rule setOutputConstraints_Inr)
  then have c3: "glp_get_num_rows (lp t3) = initRows + numOutputVars t"
    using t1 by (simp add: glp_get_num_rows_def)
  have "setNoOutputConstraints t1 = Inr t3"
    using 3 p(1) by (simp add: setNoOutputConstraints_def)
  then show ?thesis using 1 2 c2 c3 by blast
qed

lemma installed_rows_kept:
  assumes init: "setInitConstraints s0 mat1 w1 h1 rhs1 initRows = Inr s1"
    and out: "(setOutputConstraints s1 mat2 w2 h2 rhs2 outputRows = Inr s2 \<and> 0 \<le> outputRows)
              \<or> (setNoOutputConstraints s1 = Inr s2 \<and> outputRows = 0)"
    and run: "run solve (g, s2) calls = Inr (g', s3)"
  shows "glp_get_num_rows (lp s2) = initRows + outputRows + numOutputVars s2
       \<and> glp_get_num_rows (lp s3) = glp_get_num_rows (lp s2)
       \<and> numInitConstraints s3 = initRows \<and> numOutputConstraints s3 = outputRows
       \<and> numOutputVars s3 = numOutputVars s2
       \<and> (\<forall>mat w h s4. updateBasisMatrix s3 mat w h = Inr s4 \<longrightarrow>
             glp_get_num_rows (lp s4) = glp_get_num_rows (lp s3)
             \<and> s4 = s3\<lparr>lp := (lp s3)\<lparr>lp_rows := lp_rows (lp s4)\<rparr>\<rparr>
             \<and> map (\<lambda>r. r\<lparr>row_coefs := []\<rparr>) (lp_rows (lp s4))
                 = map (\<lambda>r. r\<lparr>row_coefs := []\<rparr>) (lp_rows (lp s3))
             \<and> take (length (lp_rows (lp s3)) - nat (numOutputVars s3)) (lp_rows (lp s4))
                 = take (length (lp_rows (lp s3)) - nat (numOutputVars s3)) (lp_rows (lp s3)))"
proof -
  from init obtain P1 where s1: "s1 = s0\<lparr>numInitConstraints := initRows, lp := P1\<rparr>"
    and i1: "1 \<le> initRows"
    and r1: "same_except_rows ((lp s0)\<lparr>lp_rows := replicate (nat initRows) new_row\<rparr>) P1"
    by (rule setInitConstraints_Inr)
  have nonneg: "0 \<le> outputRows" using out by auto
  from out have "\<exists>P2. s2 = s1\<lparr>numOutputConstraints := outputRows, lp := P2\<rparr>
        \<and> int (length (lp_rows P2)) =
             numInitConstraints s1 + (if 0 < outputRows then outputRows else 0) + numOutputVars s1
        \<and> 1 \<le> numOutputVars s1"
  proof (elim disjE conjE)
    assume "setOutputConstraints s1 mat2 w2 h2 rhs2 outputRows = Inr s2"
    then show ?thesis by (rule setOutputConstraints_Inr) blast
  next
    assume n: "setNoOutputConstraints s1 = Inr s2" and z: "outputRows = 0"
    from n have "setOutputConstraints s1 [] (numOutputVars s1) 0 [] 0 = Inr s2"
      by (rule setNoOutputConstraints_Inr)
    then show ?thesis unfolding z by (rule setOutputConstraints_Inr) blast
  qed
  then obtain P2 where s2: "s2 = s1\<lparr>numOutputConstraints := outputRows, lp := P2\<rparr>"
    and r2: "int (length (lp_rows P2)) =
             numInitConstraints s1 + (if 0 < outputRows then outputRows else 0) + numOutputVars s1"
    and v: "1 \<le> numOutputVars s1"
    by blast
  have rows2: "int (length (lp_rows (lp s2))) = initRows + outputRows + numOutputVars s2"
    using s1 s2 r2 nonneg by simp
  have pre: "numInitConstraints s2 \<noteq> - 1" "numInitConstraints s2 < int (length (lp_rows (lp s2)))"
    using s1 s2 r2 i1 v nonneg by simp_all
  from run_output_installed [OF run pre]
  have k: "numInitConstraints s3 = numInitConstraints s2"
    "numOutputConstraints s3 = numOutputConstraints s2"
    "numOutputVars s3 = numOutputVars s2"
    "length (lp_rows (lp s3)) = length (lp_rows (lp s2))"
    by simp_all
  have upd: "glp_get_num_rows (lp s4) = glp_get_num_rows (lp s3)
             \<and> s4 = s3\<lparr>lp := (lp s3)\<lparr>lp_rows := lp_rows (lp s4)\<rparr>\<rparr>
             \<and> map (\<lambda>r. r\<lparr>row_coefs := []\<rparr>) (lp_rows (lp s4))
                 = map (\<lambda>r. r\<lparr>row_coefs := []\<rparr>) (lp_rows (lp s3))
             \<and> take (length (lp_rows (lp s3)) - nat (numOutputVars s3)) (lp_rows (lp s4))
                 = take (length (lp_rows (lp s3)) - nat (numOutputVars s3)) (lp_rows (lp s3))"
    if u: "updateBasisMatrix s3 mat w h = Inr s4" for mat w h s4
  proof -
    from u obtain P' where s4: "s4 = s3\<lparr>lp := P'\<rparr>" and same: "same_except_rows (lp s3) P'"
      and e: "map (\<lambda>r. r\<lparr>row_coefs := []\<rparr>) (lp_rows P')
           = map (\<lambda>r. r\<lparr>row_coefs := []\<rparr>) (lp_rows (lp s3))"
      and t: "take (nat (numInitConstraints s3 + numOutputConstraints s3)) (lp_rows P')
           = take (nat (numInitConstraints s3 + numOutputConstraints s3)) (lp_rows (lp s3))"
      by (rule updateBasisMatrix_Inr)
    have "nat (numInitConstraints s3 + numOutputConstraints s3)
            = length (lp_rows (lp s3)) - nat (numOutputVars s3)"
      using k rows2 s1 s2 i1 nonneg v by simp
    then show ?thesis
      using s4 e t same_except_rows_eq [OF same] same
      by (simp add: glp_get_num_rows_def same_except_rows_def)
  qed
  show ?thesis
    using rows2 k upd s1 s2 by (simp add: glp_get_num_rows_def)
qed

lemma reset_basis_statuses:
  assumes "set (map col_type (lp_cols P)) \<subseteq> {GLP_FR}"
  shows "(\<forall>r\<in>set (lp_rows (reset_basis P)). row_stat r = GLP_BS)
       \<and> (\<forall>c\<in>set (lp_cols (reset_basis P)). col_stat c = GLP_NF)"
proof -
  have "col_type c = GLP_FR" if "c \<in> set (lp_cols P)" for c
    using assms that by auto
  then show ?thesis by (auto simp: reset_basis_def)
qed

subsection \<open>The concrete problem, evaluated\<close>

lemma LpData_new_1_1: "LpData_new 1 1 0 = Inr inst_1_1"
  by code_simp

lemma box_run: "run demo_solver (zero_global, inst_1_1) box_calls = Inr (zero_global, box_instance)"
  by code_simp

lemma box_minimize:
  "minimize demo_solver zero_global box_instance [1] 1 [0] 1
     = Inr (\<lparr>optimizations = 1, iterations = 2\<rparr>, box_solved, 0, [- 1])"
  by code_simp

lemma box_minimize_again:
  "minimize demo_solver \<lparr>optimizations = 1, iterations = 2\<rparr> box_solved [1] 1 [0] 1
     = Inr (\<lparr>optimizations = 2, iterations = 4\<rparr>, box_solved\<lparr>lp := box_solved_lp\<lparr>lp_it_cnt := 4\<rparr>\<rparr>, 0, [- 1])"
  by code_simp

lemma map_all_same: "\<forall>x\<in>set xs. f x = a \<Longrightarrow> map f xs = replicate (length xs) a"
  by (induction xs) simp_all

lemma box_init_eq: "setInitConstraints inst_1_1 [1, - 1] 1 2 [1, 1] 2 = Inr box_init"
  by code_simp

lemma box_installed_eq: "setNoOutputConstraints box_init = Inr box_installed"
  by code_simp


lemma box_direction_eq: "set_direction box_instance [1] = Inr box_objective_lp"
  by code_simp

lemma box_simplex_eq:
  "simplex_with_retry demo_solver (box_instance\<lparr>lp := box_objective_lp\<rparr>) = Inr (0, box_solved)"
  by code_simp

lemma box_minimize_2:
  "minimize demo_solver zero_global box_instance [1] 1 [0, 0] 2
     = Inr (\<lparr>optimizations = 1, iterations = 2\<rparr>, box_solved, 0, [- 1, - 2])"
  by code_simp


lemma box_solved_run:
  "run demo_solver (zero_global, inst_1_1) (box_calls @ [Minimize [1] 1 [0] 1])
     = Inr (\<lparr>optimizations = 1, iterations = 2\<rparr>, box_solved)"
  by code_simp

lemma later_run:
  "run demo_solver (zero_global, box_installed) later_calls
     = Inr (\<lparr>optimizations = 2, iterations = 4\<rparr>,
            box_solved\<lparr>inputCsrIndptr := [0], lp := box_solved_lp\<lparr>lp_it_cnt := 4\<rparr>\<rparr>)"
  by code_simp

lemma box_output_eq: "setOutputConstraints box_init [1] 1 1 [5] 1 = Inr box_output"
  by code_simp

lemma box_output_run:
  "run demo_solver (zero_global, box_output) [UpdateBasisMatrix [2] 1 1, ResetLp]
     = Inr (zero_global, box_output_basis)"
  by code_simp

section \<open>The optimal point\<close>

text \<open>
  C1 (corrected). The claim reads the result of a successful \<open>minimize\<close> as the values of
  the output variables: \<open>result[r]\<close> should be the primal value of column
  \<open>numInitVars + r + 1\<close>. The loop of \<open>processSimplexResult\<close> copies the columns in their
  own order, starting with column 1, which is the first init variable.

  What holds: when the return code that reaches \<open>processSimplexResult\<close> is 0 and the status
  is \<^verbatim>\<open>GLP_OPT\<close>, \<open>minimize\<close> returns 0 (feasible) and \<open>result[c]\<close> is the primal value of
  column \<open>c + 1\<close> for every \<open>c\<close> below both \<open>resLen\<close> and the number of columns. The value of
  output variable \<open>r\<close> is therefore at index \<open>numInitVars + r\<close>, provided \<open>resLen\<close> reaches
  that far.

  On the concrete problem, with a buffer of length 1 the result is \<open>[-1]\<close>, the value of
  \<open>x\<close>, while the output variable has the value \<open>-2\<close>; with a buffer of length 2 the
  result is \<open>[-1, -2]\<close>.
\<close>

theorem minimize_optimal_point:
  assumes "minimize solve g s direction dirLen result resLen = Inr (g', s', rv, result')"
    and "set_direction s direction = Inr P0"
    and "simplex_with_retry solve (s\<lparr>lp := P0\<rparr>) = Inr (0, s'')"
    and "glp_get_status (lp s'') = GLP_OPT"
  shows "s' = s'' \<and> rv = 0
       \<and> (\<forall>c. int c < min resLen (glp_get_num_cols (lp s')) \<longrightarrow>
             result' ! c = glp_get_col_prim (lp s') (int c + 1))
       \<and> (\<forall>r. int r < numOutputVars s' \<and> numInitVars s' + int r < resLen \<and> 0 \<le> numInitVars s'
               \<and> numInitVars s' + numOutputVars s' = glp_get_num_cols (lp s') \<longrightarrow>
             result' ! (nat (numInitVars s') + r)
               = glp_get_col_prim (lp s') (numInitVars s' + int r + 1))"
proof -
  from assms(1) obtain P1 ret where d: "set_direction s direction = Inr P1"
    and r: "simplex_with_retry solve (s\<lparr>lp := P1\<rparr>) = Inr (ret, s')"
    and p: "processSimplexResult s' ret result resLen = Inr (rv, result')"
    by (rule minimize_Inr)
  from d assms(2) have "P1 = P0" by simp
  with r assms(3) have e: "ret = 0" "s' = s''" by simp_all
  from processSimplexResult_Inr [OF p] e assms(4)
  have a: "rv = 0" "can_read result (min resLen (glp_get_num_cols (lp s')))"
    "result' = write_prims (lp s') 0 (nat (min resLen (glp_get_num_cols (lp s')))) result"
    by (auto simp: GLP_ENOPFS_def GLP_OPT_def GLP_NOFEAS_def)
  let ?k = "nat (min resLen (glp_get_num_cols (lp s')))"
  have len: "0 + ?k \<le> length result" using a(2) by (simp add: can_read_def)
  have n: "result' ! c = glp_get_col_prim (lp s') (int c + 1)" if "c < ?k" for c
    using write_prims_nth [OF len, of "lp s'" c] that a(3) by simp
  have 1: "\<forall>c. int c < min resLen (glp_get_num_cols (lp s')) \<longrightarrow>
             result' ! c = glp_get_col_prim (lp s') (int c + 1)"
  proof (intro allI impI)
    fix c assume "int c < min resLen (glp_get_num_cols (lp s'))"
    then have "c < ?k" by linarith
    then show "result' ! c = glp_get_col_prim (lp s') (int c + 1)" by (rule n)
  qed
  have 2: "\<forall>r. int r < numOutputVars s' \<and> numInitVars s' + int r < resLen \<and> 0 \<le> numInitVars s'
               \<and> numInitVars s' + numOutputVars s' = glp_get_num_cols (lp s') \<longrightarrow>
             result' ! (nat (numInitVars s') + r)
               = glp_get_col_prim (lp s') (numInitVars s' + int r + 1)"
  proof (intro allI impI)
    fix r
    assume h: "int r < numOutputVars s' \<and> numInitVars s' + int r < resLen \<and> 0 \<le> numInitVars s'
               \<and> numInitVars s' + numOutputVars s' = glp_get_num_cols (lp s')"
    then have "nat (numInitVars s') + r < ?k" by linarith
    from n [OF this] h show "result' ! (nat (numInitVars s') + r)
               = glp_get_col_prim (lp s') (numInitVars s' + int r + 1)"
      by (simp add: add.commute)
  qed
  show ?thesis using e a(1) 1 2 by simp
qed

theorem minimize_optimal_point_witness:
  "minimize demo_solver zero_global box_instance [1] 1 [0, 0] 2
       = Inr (\<lparr>optimizations = 1, iterations = 2\<rparr>, box_solved, 0, [- 1, - 2])
   \<and> set_direction box_instance [1] = Inr box_objective_lp
   \<and> simplex_with_retry demo_solver (box_instance\<lparr>lp := box_objective_lp\<rparr>) = Inr (0, box_solved)
   \<and> glp_get_status (lp box_solved) = GLP_OPT
   \<and> [- 1, - 2] ! 0 = glp_get_col_prim (lp box_solved) 1
   \<and> [- 1, - 2] ! (nat (numInitVars box_solved) + 0)
       = glp_get_col_prim (lp box_solved) (numInitVars box_solved + 0 + 1)"
proof -
  have st: "glp_get_status (lp box_solved) = GLP_OPT" by code_simp
  have n: "glp_get_num_cols (lp box_solved) = 2" "numInitVars box_solved = 1"
    "numOutputVars box_solved = 1"
    by code_simp+
  from minimize_optimal_point [OF box_minimize_2 box_direction_eq box_simplex_eq st]
  have 1: "\<forall>c. int c < min 2 (glp_get_num_cols (lp box_solved)) \<longrightarrow>
         [- 1, - 2] ! c = glp_get_col_prim (lp box_solved) (int c + 1)"
    and 2: "\<forall>r. int r < numOutputVars box_solved \<and> numInitVars box_solved + int r < 2
               \<and> 0 \<le> numInitVars box_solved
               \<and> numInitVars box_solved + numOutputVars box_solved
                   = glp_get_num_cols (lp box_solved) \<longrightarrow>
             [- 1, - 2] ! (nat (numInitVars box_solved) + r)
               = glp_get_col_prim (lp box_solved) (numInitVars box_solved + int r + 1)"
    by blast+
  from 1 [rule_format, of 0] n have a: "[- 1, - 2] ! 0 = glp_get_col_prim (lp box_solved) 1"
    by simp
  from 2 [rule_format, of 0] n
  have b: "[- 1, - 2] ! (nat (numInitVars box_solved) + 0)
       = glp_get_col_prim (lp box_solved) (numInitVars box_solved + 0 + 1)"
    by simp
  show ?thesis using box_minimize_2 box_direction_eq box_simplex_eq st a b by blast
qed

theorem result_is_output_point_counterexample:
  "run demo_solver (zero_global, inst_1_1) box_calls = Inr (zero_global, box_instance)
   \<and> minimize demo_solver zero_global box_instance [1] 1 [0] 1
       = Inr (\<lparr>optimizations = 1, iterations = 2\<rparr>, box_solved, 0, [- 1])
   \<and> glp_get_status (lp box_solved) = GLP_OPT
   \<and> numOutputVars box_solved = 1 \<and> numInitVars box_solved = 1
   \<and> glp_get_col_prim (lp box_solved) (numInitVars box_solved + 0 + 1) = - 2
   \<and> [- 1] ! 0 \<noteq> glp_get_col_prim (lp box_solved) (numInitVars box_solved + 0 + 1)"
  by code_simp

section \<open>The row layout\<close>

text \<open>
  C2. On an instance that the constructor built, after calls none of which installs the
  init block, \<open>setInitConstraints\<close> with \<open>initRows \<ge> 1\<close> rows returns, and so does, called
  at once after it, \<open>setOutputConstraints\<close> with \<open>outputRows \<ge> 0\<close> rows as well as
  \<open>setNoOutputConstraints\<close>, when the buffers passed hold the elements that their
  dimensions announce: the problem then has \<open>initRows + outputRows + numOutputVars\<close> rows
  (\<open>outputRows = 0\<close> for \<open>setNoOutputConstraints\<close>).

  Whenever \<open>setInitConstraints\<close> with \<open>initRows\<close> rows, followed at once by
  \<open>setOutputConstraints\<close> with \<open>outputRows \<ge> 0\<close> rows or by \<open>setNoOutputConstraints\<close>
  (\<open>outputRows = 0\<close>), has returned, the problem has
  \<open>initRows + outputRows + numOutputVars\<close> rows. Every sequence of further calls that runs
  to its end leaves that number, and the three counts, as they are. A successful
  \<open>updateBasisMatrix\<close> then changes nothing of the instance but rows of the problem, of
  those rows nothing but their coefficients, and no row before the last \<open>numOutputVars\<close>
  ones.
\<close>

theorem row_count_after_installation:
  "(LpData_new nOut nInit nIn = Inr t0 \<and> run solve0 (g0, t0) calls0 = Inr (g1, t)
      \<and> (\<forall>c\<in>set calls0. \<not> installs_init c)
      \<and> 1 \<le> initRows \<and> can_read rhs1 initRows \<and> can_read mat1 (initRows * numInitVars t)
      \<and> 0 \<le> outputRows \<and> can_read rhs2 outputRows
      \<and> can_read mat2 (outputRows * numOutputVars t)
    \<longrightarrow> (\<exists>t1 t2 t3.
           setInitConstraints t mat1 (numInitVars t) initRows rhs1 initRows = Inr t1
         \<and> setOutputConstraints t1 mat2 (numOutputVars t) h2 rhs2 outputRows = Inr t2
         \<and> glp_get_num_rows (lp t2) = initRows + outputRows + numOutputVars t
         \<and> setNoOutputConstraints t1 = Inr t3
         \<and> glp_get_num_rows (lp t3) = initRows + numOutputVars t))
   \<and> (setInitConstraints s0 mat1 w1 h1 rhs1 initRows = Inr s1
      \<and> (setOutputConstraints s1 mat2 w2 h2 rhs2 outputRows = Inr s2 \<and> 0 \<le> outputRows
           \<or> setNoOutputConstraints s1 = Inr s2 \<and> outputRows = 0)
      \<and> run solve (g, s2) calls = Inr (g', s3)
    \<longrightarrow> glp_get_num_rows (lp s2) = initRows + outputRows + numOutputVars s2
       \<and> glp_get_num_rows (lp s3) = glp_get_num_rows (lp s2)
       \<and> numInitConstraints s3 = initRows \<and> numOutputConstraints s3 = outputRows
       \<and> numOutputVars s3 = numOutputVars s2
       \<and> (\<forall>mat w h s4. updateBasisMatrix s3 mat w h = Inr s4 \<longrightarrow>
             glp_get_num_rows (lp s4) = glp_get_num_rows (lp s3)
             \<and> s4 = s3\<lparr>lp := (lp s3)\<lparr>lp_rows := lp_rows (lp s4)\<rparr>\<rparr>
             \<and> map (\<lambda>r. r\<lparr>row_coefs := []\<rparr>) (lp_rows (lp s4))
                 = map (\<lambda>r. r\<lparr>row_coefs := []\<rparr>) (lp_rows (lp s3))
             \<and> take (length (lp_rows (lp s3)) - nat (numOutputVars s3)) (lp_rows (lp s4))
                 = take (length (lp_rows (lp s3)) - nat (numOutputVars s3)) (lp_rows (lp s3))))"
proof (rule conjI; rule impI; elim conjE)
  assume "LpData_new nOut nInit nIn = Inr t0" "run solve0 (g0, t0) calls0 = Inr (g1, t)"
    "\<forall>c\<in>set calls0. \<not> installs_init c"
    "1 \<le> initRows" "can_read rhs1 initRows" "can_read mat1 (initRows * numInitVars t)"
    "0 \<le> outputRows" "can_read rhs2 outputRows" "can_read mat2 (outputRows * numOutputVars t)"
  then show "\<exists>t1 t2 t3.
           setInitConstraints t mat1 (numInitVars t) initRows rhs1 initRows = Inr t1
         \<and> setOutputConstraints t1 mat2 (numOutputVars t) h2 rhs2 outputRows = Inr t2
         \<and> glp_get_num_rows (lp t2) = initRows + outputRows + numOutputVars t
         \<and> setNoOutputConstraints t1 = Inr t3
         \<and> glp_get_num_rows (lp t3) = initRows + numOutputVars t"
    by (rule installers_total)
next
  assume "setInitConstraints s0 mat1 w1 h1 rhs1 initRows = Inr s1"
    "setOutputConstraints s1 mat2 w2 h2 rhs2 outputRows = Inr s2 \<and> 0 \<le> outputRows
           \<or> setNoOutputConstraints s1 = Inr s2 \<and> outputRows = 0"
    "run solve (g, s2) calls = Inr (g', s3)"
  then show "glp_get_num_rows (lp s2) = initRows + outputRows + numOutputVars s2
       \<and> glp_get_num_rows (lp s3) = glp_get_num_rows (lp s2)
       \<and> numInitConstraints s3 = initRows \<and> numOutputConstraints s3 = outputRows
       \<and> numOutputVars s3 = numOutputVars s2
       \<and> (\<forall>mat w h s4. updateBasisMatrix s3 mat w h = Inr s4 \<longrightarrow>
             glp_get_num_rows (lp s4) = glp_get_num_rows (lp s3)
             \<and> s4 = s3\<lparr>lp := (lp s3)\<lparr>lp_rows := lp_rows (lp s4)\<rparr>\<rparr>
             \<and> map (\<lambda>r. r\<lparr>row_coefs := []\<rparr>) (lp_rows (lp s4))
                 = map (\<lambda>r. r\<lparr>row_coefs := []\<rparr>) (lp_rows (lp s3))
             \<and> take (length (lp_rows (lp s3)) - nat (numOutputVars s3)) (lp_rows (lp s4))
                 = take (length (lp_rows (lp s3)) - nat (numOutputVars s3)) (lp_rows (lp s3)))"
    by (rule installed_rows_kept)
qed

theorem row_count_after_installation_witness:
  "LpData_new 1 1 0 = Inr inst_1_1
   \<and> run demo_solver (zero_global, inst_1_1) [ResetLp] = Inr (zero_global, inst_1_1)
   \<and> \<not> installs_init ResetLp
   \<and> setInitConstraints inst_1_1 [1, - 1] 1 2 [1, 1] 2 = Inr box_init
   \<and> setOutputConstraints box_init [1] 1 1 [5] 1 = Inr box_output
   \<and> glp_get_num_rows (lp box_output) = 2 + 1 + numOutputVars inst_1_1
   \<and> setNoOutputConstraints box_init = Inr box_installed
   \<and> glp_get_num_rows (lp box_installed) = 2 + numOutputVars inst_1_1
   \<and> run demo_solver (zero_global, box_output) [UpdateBasisMatrix [2] 1 1, ResetLp]
       = Inr (zero_global, box_output_basis)
   \<and> glp_get_num_rows (lp box_output_basis) = glp_get_num_rows (lp box_output)
   \<and> run demo_solver (zero_global, box_installed) later_calls
       = Inr (\<lparr>optimizations = 2, iterations = 4\<rparr>,
              box_solved\<lparr>inputCsrIndptr := [0], lp := box_solved_lp\<lparr>lp_it_cnt := 4\<rparr>\<rparr>)
   \<and> glp_get_num_rows (lp box_installed) = 2 + 0 + numOutputVars box_installed
   \<and> glp_get_num_rows (lp (box_solved\<lparr>inputCsrIndptr := [0],
          lp := box_solved_lp\<lparr>lp_it_cnt := 4\<rparr>\<rparr>)) = glp_get_num_rows (lp box_installed)"
proof -
  have r: "run demo_solver (zero_global, inst_1_1) [ResetLp] = Inr (zero_global, inst_1_1)"
    by code_simp
  have d: "numInitVars inst_1_1 = 1" "numOutputVars inst_1_1 = 1"
    by (simp_all add: inst_1_1_def)
  have "\<exists>t1 t2 t3.
           setInitConstraints inst_1_1 [1, - 1] (numInitVars inst_1_1) 2 [1, 1] 2 = Inr t1
         \<and> setOutputConstraints t1 [1] (numOutputVars inst_1_1) 1 [5] 1 = Inr t2
         \<and> glp_get_num_rows (lp t2) = 2 + 1 + numOutputVars inst_1_1
         \<and> setNoOutputConstraints t1 = Inr t3
         \<and> glp_get_num_rows (lp t3) = 2 + numOutputVars inst_1_1"
    using row_count_after_installation [where t0 = inst_1_1 and t = inst_1_1
        and ?calls0.0 = "[ResetLp]" and ?solve0.0 = demo_solver and ?g0.0 = zero_global
        and ?g1.0 = zero_global and nOut = 1 and nInit = 1 and nIn = 0
        and initRows = 2 and ?rhs1.0 = "[1, 1]" and ?mat1.0 = "[1, - 1]"
        and outputRows = 1 and ?rhs2.0 = "[5]" and ?mat2.0 = "[1]" and ?h2.0 = 1,
        THEN conjunct1]
      LpData_new_1_1 r d
    by (simp add: can_read_def)
  then have a: "glp_get_num_rows (lp box_output) = 2 + 1 + numOutputVars inst_1_1"
    and b: "glp_get_num_rows (lp box_installed) = 2 + numOutputVars inst_1_1"
    using box_init_eq box_output_eq box_installed_eq d by auto
  have o1: "setOutputConstraints box_init [1] 1 1 [5] 1 = Inr box_output \<and> (0::int) \<le> 1
      \<or> setNoOutputConstraints box_init = Inr box_output \<and> (1::int) = 0"
    using box_output_eq by simp
  have o2: "setOutputConstraints box_init [] 0 0 [] 0 = Inr box_installed \<and> (0::int) \<le> 0
      \<or> setNoOutputConstraints box_init = Inr box_installed \<and> (0::int) = 0"
    using box_installed_eq by simp
  from row_count_after_installation [THEN conjunct2, rule_format,
      OF conjI [OF box_init_eq conjI [OF o1 box_output_run]]]
  have c: "glp_get_num_rows (lp box_output_basis) = glp_get_num_rows (lp box_output)"
    by simp
  from row_count_after_installation [THEN conjunct2, rule_format,
      OF conjI [OF box_init_eq conjI [OF o2 later_run]]]
  have e: "glp_get_num_rows (lp box_installed) = 2 + 0 + numOutputVars box_installed"
    "glp_get_num_rows (lp (box_solved\<lparr>inputCsrIndptr := [0],
          lp := box_solved_lp\<lparr>lp_it_cnt := 4\<rparr>\<rparr>)) = glp_get_num_rows (lp box_installed)"
    by simp_all
  show ?thesis
    using LpData_new_1_1 r box_init_eq box_output_eq box_installed_eq box_output_run later_run
      a b c e by simp
qed

section \<open>The retry after a failed solve\<close>

text \<open>
  C3. Take an instance built by the constructor, any calls later, on which the checks of
  \<open>minimize\<close> pass and the objective loop yields the problem \<open>P0\<close>. If the first
  invocation of the solver, on \<open>P0\<close>, returns a nonzero code (a hard basis error is one),
  then the problem \<open>R\<close> handed to the second invocation has every row status basic and
  every column status free-nonbasic, and the outcome of \<open>minimize\<close> is
  \<open>processSimplexResult\<close> applied to the return code \<open>ret2\<close> of that second invocation:
  there is no third one. If \<open>ret2\<close> is nonzero the call is fatal, except for
  \<^verbatim>\<open>GLP_ENOPFS\<close>, which makes \<open>minimize\<close> return 1 (infeasible) with the result buffer
  untouched.
\<close>

theorem minimize_retries_once:
  assumes new: "LpData_new nOut nInit nIn = Inr s0"
    and run: "run solve (g0, s0) calls = Inr (g, s)"
    and pre: "numInitConstraints s \<noteq> - 1" "numOutputConstraints s \<noteq> - 1"
      "dirLen = numOutputVars s" "can_read direction (numOutputVars s)"
    and d: "set_direction s direction = Inr P0"
    and fail: "sr_ret (solve P0) \<noteq> 0"
  shows "let R = reset_basis (solved solve P0);
             ret2 = sr_ret (solve R);
             s2 = s\<lparr>lp := solved solve R\<rparr>;
             g2 = g\<lparr>iterations := iterations g + (lp_it_cnt (solved solve R) - lp_it_cnt P0),
                    optimizations := optimizations g + 1\<rparr>
         in (\<forall>r\<in>set (lp_rows R). row_stat r = GLP_BS)
          \<and> (\<forall>c\<in>set (lp_cols R). col_stat c = GLP_NF)
          \<and> simplex_with_retry solve (s\<lparr>lp := P0\<rparr>) = Inr (ret2, s2)
          \<and> minimize solve g s direction dirLen result resLen =
               (case processSimplexResult s2 ret2 result resLen of
                  Inl (e, s3) \<Rightarrow> Inl (e, g2, s3)
                | Inr (rv, result') \<Rightarrow> Inr (g2, s2, rv, result'))
          \<and> (ret2 \<noteq> 0 \<and> ret2 \<noteq> GLP_ENOPFS \<longrightarrow>
                minimize solve g s direction dirLen result resLen
                  = Inl (SimplexNonzero ret2, g2, s2))
          \<and> (ret2 = GLP_ENOPFS \<longrightarrow>
                minimize solve g s direction dirLen result resLen = Inr (g2, s2, 1, result))"
proof -
  let ?R = "reset_basis (solved solve P0)"
  let ?ret2 = "sr_ret (solve ?R)"
  let ?s2 = "s\<lparr>lp := solved solve ?R\<rparr>"
  let ?g2 = "g\<lparr>iterations := iterations g + (lp_it_cnt (solved solve ?R) - lp_it_cnt P0),
                    optimizations := optimizations g + 1\<rparr>"
  have wf: "lp_wf s" using run_lp_wf [OF run] LpData_new_wf(1) [OF new] by simp
  have "map col_type (lp_cols (solved solve P0)) = map col_type (lp_cols (lp s))"
    using set_direction_Inr [OF d] by (simp add: solved_def)
  then have "set (map col_type (lp_cols (solved solve P0))) \<subseteq> {GLP_FR}"
    using wf by (simp add: lp_wf_def)
  then have 1: "(\<forall>r\<in>set (lp_rows ?R). row_stat r = GLP_BS)
       \<and> (\<forall>c\<in>set (lp_cols ?R). col_stat c = GLP_NF)"
    by (rule reset_basis_statuses)
  have 2: "simplex_with_retry solve (s\<lparr>lp := P0\<rparr>) = Inr (?ret2, ?s2)"
    using fail by (simp add: simplex_with_retry_eq)
  have 3: "minimize solve g s direction dirLen result resLen =
               (case processSimplexResult ?s2 ?ret2 result resLen of
                  Inl (e, s3) \<Rightarrow> Inl (e, ?g2, s3)
                | Inr (rv, result') \<Rightarrow> Inr (?g2, ?s2, rv, result'))"
    using pre d 2
    by (simp add: minimize_def solve_and_report_def glp_get_it_cnt_def Let_def
          split: sum.splits prod.splits)
  have 4: "?ret2 \<noteq> 0 \<and> ?ret2 \<noteq> GLP_ENOPFS \<longrightarrow>
                minimize solve g s direction dirLen result resLen
                  = Inl (SimplexNonzero ?ret2, ?g2, ?s2)"
    unfolding 3 by (simp add: processSimplexResult_def)
  have 5: "?ret2 = GLP_ENOPFS \<longrightarrow>
                minimize solve g s direction dirLen result resLen = Inr (?g2, ?s2, 1, result)"
    unfolding 3 by (simp add: processSimplexResult_def)
  show ?thesis unfolding Let_def using 1 2 3 4 5 by blast
qed

theorem minimize_retries_once_witness:
  "LpData_new 1 1 0 = Inr inst_1_1
   \<and> run demo_solver (zero_global, inst_1_1) (box_calls @ [Minimize [1] 1 [0] 1])
       = Inr (\<lparr>optimizations = 1, iterations = 2\<rparr>, box_solved)
   \<and> numInitConstraints box_solved \<noteq> - 1 \<and> numOutputConstraints box_solved \<noteq> - 1
   \<and> 1 = numOutputVars box_solved \<and> can_read [1 :: real] (numOutputVars box_solved)
   \<and> set_direction box_solved [1] = Inr box_solved_lp
   \<and> sr_ret (demo_solver box_solved_lp) = GLP_ESING \<and> GLP_ESING \<noteq> 0
   \<and> map row_stat (lp_rows (reset_basis (solved demo_solver box_solved_lp)))
       = [GLP_BS, GLP_BS, GLP_BS]
   \<and> map col_stat (lp_cols (reset_basis (solved demo_solver box_solved_lp))) = [GLP_NF, GLP_NF]
   \<and> minimize demo_solver \<lparr>optimizations = 1, iterations = 2\<rparr> box_solved [1] 1 [0] 1
       = Inr (\<lparr>optimizations = 2, iterations = 4\<rparr>,
              box_solved\<lparr>lp := box_solved_lp\<lparr>lp_it_cnt := 4\<rparr>\<rparr>, 0, [- 1])"
proof -
  have h: "numInitConstraints box_solved \<noteq> - 1" "numOutputConstraints box_solved \<noteq> - 1"
    "1 = numOutputVars box_solved" "can_read [1 :: real] (numOutputVars box_solved)"
    by code_simp+
  have d: "set_direction box_solved [1] = Inr box_solved_lp" by code_simp
  have f: "sr_ret (demo_solver box_solved_lp) = GLP_ESING" "GLP_ESING \<noteq> 0" by code_simp+
  then have f': "sr_ret (demo_solver box_solved_lp) \<noteq> 0" by simp
  have l: "length (lp_rows (reset_basis (solved demo_solver box_solved_lp))) = 3"
    "length (lp_cols (reset_basis (solved demo_solver box_solved_lp))) = 2"
    by code_simp+
  from minimize_retries_once [OF LpData_new_1_1 box_solved_run h d f', where result = "[0]"
      and resLen = 1]
  have "(\<forall>r\<in>set (lp_rows (reset_basis (solved demo_solver box_solved_lp))). row_stat r = GLP_BS)
   \<and> (\<forall>c\<in>set (lp_cols (reset_basis (solved demo_solver box_solved_lp))). col_stat c = GLP_NF)"
    by (simp add: Let_def)
  then have "map row_stat (lp_rows (reset_basis (solved demo_solver box_solved_lp)))
       = replicate (length (lp_rows (reset_basis (solved demo_solver box_solved_lp)))) GLP_BS"
    and "map col_stat (lp_cols (reset_basis (solved demo_solver box_solved_lp)))
       = replicate (length (lp_cols (reset_basis (solved demo_solver box_solved_lp)))) GLP_NF"
    by (blast intro: map_all_same)+
  then have "map row_stat (lp_rows (reset_basis (solved demo_solver box_solved_lp)))
       = [GLP_BS, GLP_BS, GLP_BS]"
    and "map col_stat (lp_cols (reset_basis (solved demo_solver box_solved_lp))) = [GLP_NF, GLP_NF]"
    unfolding l by (simp_all add: numeral_3_eq_3 numeral_2_eq_2)
  then show ?thesis using LpData_new_1_1 box_solved_run h d f box_minimize_again by simp
qed

section \<open>Calls in the wrong order\<close>

text \<open>
  C4 (corrected). On an instance that the constructor built, after calls none of which
  installs the init block, both output installers end with a configuration error; after
  calls none of which installs the output block, \<open>updateBasisMatrix\<close> ends with a
  configuration error and has changed nothing.

  The claim adds that the failing output installer leaves the whole instance, and
  \<open>numOutputConstraints\<close> by name, unchanged. \<open>setOutputConstraints\<close> assigns
  \<open>numOutputConstraints = rhsLen\<close> before it checks the width and the row count. So the
  instance at the error is the one before the call with \<open>numOutputConstraints\<close>, which was
  \<open>-1\<close>, overwritten by \<open>rhsLen\<close> (by 0 for \<open>setNoOutputConstraints\<close>): every other
  field, \<open>numInitConstraints\<close> and the problem object among them, is as before.
\<close>

theorem wrong_order_fails:
  assumes "LpData_new nOut nInit nIn = Inr s0" and "run solve (g0, s0) calls = Inr (g, s)"
  shows "((\<forall>c\<in>set calls. \<not> installs_init c) \<longrightarrow>
            numInitConstraints s = - 1 \<and> numOutputConstraints s = - 1
          \<and> (\<exists>e. setOutputConstraints s mat w h rhs n = Inl (e, s\<lparr>numOutputConstraints := n\<rparr>)
                \<and> is_config_error e)
          \<and> (\<exists>e. setNoOutputConstraints s = Inl (e, s\<lparr>numOutputConstraints := 0\<rparr>)
                \<and> is_config_error e))
       \<and> ((\<forall>c\<in>set calls. \<not> installs_output c) \<longrightarrow>
            (\<exists>e. updateBasisMatrix s mat w h = Inl (e, s) \<and> is_config_error e))"
proof (intro conjI impI)
  assume c: "\<forall>c\<in>set calls. \<not> installs_init c"
  from run_before_init [OF assms(2) c] LpData_new_wf [OF assms(1)]
  have u: "numInitConstraints s = - 1" "numOutputConstraints s = - 1" by simp_all
  show "numInitConstraints s = - 1" "numOutputConstraints s = - 1" by (rule u)+
  have 1: "\<exists>e. setOutputConstraints s mat w h rhs n = Inl (e, s\<lparr>numOutputConstraints := n\<rparr>)
                \<and> is_config_error e" for mat w h rhs n
    using u by (simp add: setOutputConstraints_def Let_def glp_get_num_rows_def)
  show "\<exists>e. setOutputConstraints s mat w h rhs n = Inl (e, s\<lparr>numOutputConstraints := n\<rparr>)
                \<and> is_config_error e"
    by (rule 1)
  have "setNoOutputConstraints s = setOutputConstraints s [] (numOutputVars s) 0 [] 0"
    using u by (simp add: setNoOutputConstraints_def)
  then show "\<exists>e. setNoOutputConstraints s = Inl (e, s\<lparr>numOutputConstraints := 0\<rparr>)
                \<and> is_config_error e"
    using 1 [of "[]" "numOutputVars s" 0 "[]" 0] by simp
next
  assume "\<forall>c\<in>set calls. \<not> installs_output c"
  with run_no_output [OF assms(2)] LpData_new_wf(3) [OF assms(1)]
  have "numOutputConstraints s = - 1" by simp
  then show "\<exists>e. updateBasisMatrix s mat w h = Inl (e, s) \<and> is_config_error e"
    by (simp add: updateBasisMatrix_def)
qed

theorem wrong_order_fails_witness:
  "LpData_new 1 1 0 = Inr inst_1_1
   \<and> run demo_solver (zero_global, inst_1_1) [ResetLp] = Inr (zero_global, inst_1_1)
   \<and> \<not> installs_init ResetLp \<and> \<not> installs_output ResetLp
   \<and> numOutputConstraints inst_1_1 = - 1
   \<and> (\<exists>e. setOutputConstraints inst_1_1 [2] 1 1 [1] 1
              = Inl (e, inst_1_1\<lparr>numOutputConstraints := 1\<rparr>) \<and> is_config_error e)
   \<and> (\<exists>e. setNoOutputConstraints inst_1_1 = Inl (e, inst_1_1\<lparr>numOutputConstraints := 0\<rparr>)
         \<and> is_config_error e)
   \<and> (\<exists>e. updateBasisMatrix inst_1_1 [2] 1 1 = Inl (e, inst_1_1) \<and> is_config_error e)"
proof -
  have r: "run demo_solver (zero_global, inst_1_1) [ResetLp] = Inr (zero_global, inst_1_1)"
    by code_simp
  from wrong_order_fails [OF LpData_new_1_1 r, where mat = "[2]" and w = 1 and h = 1
      and rhs = "[1]" and n = 1]
  show ?thesis using LpData_new_1_1 r by simp
qed

theorem failed_install_keeps_state_counterexample:
  "LpData_new 1 1 0 = Inr inst_1_1
   \<and> setNoOutputConstraints inst_1_1
       = Inl (OutputNotRightAfterInit, inst_1_1\<lparr>numOutputConstraints := 0\<rparr>)
   \<and> numOutputConstraints (inst_1_1\<lparr>numOutputConstraints := 0\<rparr>)
       \<noteq> numOutputConstraints inst_1_1
   \<and> setOutputConstraints inst_1_1 [1] 1 1 [1] 1
       = Inl (OutputNotRightAfterInit, inst_1_1\<lparr>numOutputConstraints := 1\<rparr>)
   \<and> inst_1_1\<lparr>numOutputConstraints := 1\<rparr> \<noteq> inst_1_1"
  by code_simp

section \<open>Rewriting the basis rows\<close>



section \<open>The objective\<close>

text \<open>
  C6. On an instance built by the constructor, any calls later, and for a direction of
  \<open>numOutputVars\<close> entries, the objective loop of \<open>minimize\<close> succeeds; the problem \<open>P0\<close>
  that it hands to the solver has the objective coefficient \<open>direction[i]\<close> on column
  \<open>numInitVars + i + 1\<close> for every \<open>i < numOutputVars\<close> and 0 on the columns
  \<open>1 .. numInitVars\<close>. When both blocks are installed, \<open>minimize\<close> is the solve phase run
  on \<open>P0\<close>.
\<close>

theorem minimize_installs_direction:
  assumes new: "LpData_new nOut nInit nIn = Inr s0"
    and run: "run solve (g0, s0) calls = Inr (g, s)"
    and len: "int (length direction) = numOutputVars s"
  shows "\<exists>P0. set_direction s direction = Inr P0
       \<and> (\<forall>i. i < nat (numOutputVars s) \<longrightarrow>
             glp_get_obj_coef P0 (numInitVars s + int i + 1) = direction ! i)
       \<and> (\<forall>j. 1 \<le> j \<and> j \<le> numInitVars s \<longrightarrow> glp_get_obj_coef P0 j = 0)
       \<and> (numInitConstraints s \<noteq> - 1 \<and> numOutputConstraints s \<noteq> - 1 \<longrightarrow>
             minimize solve g s direction (numOutputVars s) result resLen
               = solve_and_report solve g (s\<lparr>lp := P0\<rparr>) result resLen)"
proof -
  let ?m = "nat (numInitVars s)"
  have wf: "lp_wf s" using run_lp_wf [OF run] LpData_new_wf(1) [OF new] by simp
  then have v: "0 \<le> numInitVars s" "0 \<le> numOutputVars s"
    and c: "int (length (lp_cols (lp s))) = numInitVars s + numOutputVars s"
    and z: "set (take ?m (map col_obj (lp_cols (lp s)))) \<subseteq> {0}"
    by (simp_all add: lp_wf_def)
  from set_direction_works [OF v c, of direction]
  obtain P0 where d: "set_direction s direction = Inr P0"
    and nth: "\<forall>n<length (lp_cols (lp s)). lp_cols P0 ! n =
                (if ?m \<le> n \<and> n < ?m + nat (numOutputVars s)
                 then (lp_cols (lp s) ! n)\<lparr>col_obj := direction ! (n - ?m)\<rparr>
                 else lp_cols (lp s) ! n)"
    by blast
  have 1: "\<forall>i. i < nat (numOutputVars s) \<longrightarrow>
             glp_get_obj_coef P0 (numInitVars s + int i + 1) = direction ! i"
  proof (intro allI impI)
    fix i assume i: "i < nat (numOutputVars s)"
    have idx: "nat (numInitVars s + int i) = ?m + i" using v by (simp add: nat_add_distrib)
    have "?m + i < length (lp_cols (lp s))" using c v i by linarith
    then show "glp_get_obj_coef P0 (numInitVars s + int i + 1) = direction ! i"
      using nth i by (simp add: glp_get_obj_coef_def idx)
  qed
  have 2: "\<forall>j. 1 \<le> j \<and> j \<le> numInitVars s \<longrightarrow> glp_get_obj_coef P0 j = 0"
  proof (intro allI impI)
    fix j assume j: "1 \<le> j \<and> j \<le> numInitVars s"
    then have k: "nat (j - 1) < ?m" by linarith
    then have l: "nat (j - 1) < length (lp_cols (lp s))" using c v by linarith
    have "take ?m (map col_obj (lp_cols (lp s))) ! nat (j - 1) \<in> set (take ?m (map col_obj (lp_cols (lp s))))"
      using k l by (intro nth_mem) simp
    then have "col_obj (lp_cols (lp s) ! nat (j - 1)) = 0"
      using z k l by auto
    moreover have "\<not> ?m \<le> nat (j - 1)" using k by linarith
    ultimately show "glp_get_obj_coef P0 j = 0"
      using nth l by (simp add: glp_get_obj_coef_def)
  qed
  have 3: "numInitConstraints s \<noteq> - 1 \<and> numOutputConstraints s \<noteq> - 1 \<longrightarrow>
             minimize solve g s direction (numOutputVars s) result resLen
               = solve_and_report solve g (s\<lparr>lp := P0\<rparr>) result resLen"
    using d len by (simp add: minimize_def can_read_def)
  show ?thesis using d 1 2 3 by blast
qed

theorem minimize_installs_direction_witness:
  "LpData_new 1 1 0 = Inr inst_1_1
   \<and> run demo_solver (zero_global, inst_1_1) box_calls = Inr (zero_global, box_instance)
   \<and> int (length [1 :: real]) = numOutputVars box_instance
   \<and> set_direction box_instance [1] = Inr box_objective_lp
   \<and> glp_get_obj_coef box_objective_lp 2 = 1 \<and> glp_get_obj_coef box_objective_lp 1 = 0"
proof -
  have h: "int (length [1 :: real]) = numOutputVars box_instance"
    "numInitVars box_instance = 1" "numOutputVars box_instance = 1"
    by code_simp+
  from minimize_installs_direction [OF LpData_new_1_1 box_run h(1), where result = "[0]"
      and resLen = 1]
  obtain P0 where "set_direction box_instance [1] = Inr P0"
    and 1: "\<forall>i. i < nat (numOutputVars box_instance) \<longrightarrow>
             glp_get_obj_coef P0 (numInitVars box_instance + int i + 1) = [1] ! i"
    and 2: "\<forall>j. 1 \<le> j \<and> j \<le> numInitVars box_instance \<longrightarrow> glp_get_obj_coef P0 j = 0"
    by blast
  then have P0: "P0 = box_objective_lp" using box_direction_eq by simp
  from 1 [rule_format, of 0] have "glp_get_obj_coef box_objective_lp 2 = 1"
    using h P0 by simp
  moreover from 2 [rule_format, of 1] have "glp_get_obj_coef box_objective_lp 1 = 0"
    using h P0 by simp
  ultimately show ?thesis using LpData_new_1_1 box_run h(1) box_direction_eq by simp
qed

section \<open>Installing a block twice\<close>

text \<open>
  C7. After a successful \<open>setInitConstraints\<close> and any calls that run to their end, every
  further \<open>setInitConstraints\<close> ends with the configuration error "called twice", its
  arguments notwithstanding. After a successful output installer (either one) and any
  calls that run to their end, \<open>setOutputConstraints\<close> with any arguments and
  \<open>setNoOutputConstraints\<close> both end with a configuration error.
\<close>

theorem second_install_fails:
  "(setInitConstraints s0 mat1 w1 h1 rhs1 n1 = Inr s1 \<and> run solve (g, s1) calls = Inr (g', s)
      \<longrightarrow> setInitConstraints s mat w h rhs n = Inl (InitCalledTwice, s))
   \<and> ((setOutputConstraints s0 mat1 w1 h1 rhs1 n1 = Inr s1 \<or> setNoOutputConstraints s0 = Inr s1)
        \<and> run solve (g, s1) calls = Inr (g', s)
      \<longrightarrow> (\<exists>e st. setOutputConstraints s mat w h rhs n = Inl (e, st) \<and> is_config_error e)
          \<and> (\<exists>e st. setNoOutputConstraints s = Inl (e, st) \<and> is_config_error e))"
proof (intro conjI impI)
  assume a: "setInitConstraints s0 mat1 w1 h1 rhs1 n1 = Inr s1 \<and> run solve (g, s1) calls = Inr (g', s)"
  then obtain P1 where "s1 = s0\<lparr>numInitConstraints := n1, lp := P1\<rparr>" and "1 \<le> n1"
    by (blast elim: setInitConstraints_Inr)
  then have "numInitConstraints s1 \<noteq> - 1" "1 \<le> numInitConstraints s1" by simp_all
  with run_init_installed [of solve g s1 calls g' s] a have "numInitConstraints s \<noteq> - 1" by simp
  then show "setInitConstraints s mat w h rhs n = Inl (InitCalledTwice, s)"
    by (simp add: setInitConstraints_def)
next
  assume a: "(setOutputConstraints s0 mat1 w1 h1 rhs1 n1 = Inr s1 \<or> setNoOutputConstraints s0 = Inr s1)
        \<and> run solve (g, s1) calls = Inr (g', s)"
  then have "setOutputConstraints s0 mat1 w1 h1 rhs1 n1 = Inr s1
      \<or> setOutputConstraints s0 [] (numOutputVars s0) 0 [] 0 = Inr s1"
    by (auto dest: setNoOutputConstraints_Inr)
  then have "\<exists>m w h r k. setOutputConstraints s0 m w h r k = Inr s1"
    by blast
  then obtain m0 w0 h0 r0 k P1 where "s1 = s0\<lparr>numOutputConstraints := k, lp := P1\<rparr>"
    and "int (length (lp_rows (lp s0))) = numInitConstraints s0" and "1 \<le> numOutputVars s0"
    and "int (length (lp_rows P1)) =
           numInitConstraints s0 + (if 0 < k then k else 0) + numOutputVars s0"
    by (blast elim: setOutputConstraints_Inr)
  then have pre: "numInitConstraints s1 \<noteq> - 1" "numInitConstraints s1 < int (length (lp_rows (lp s1)))"
    by (auto split: if_splits)
  from a have r: "run solve (g, s1) calls = Inr (g', s)" by simp
  from run_output_installed [OF r pre] pre
  have j: "int (length (lp_rows (lp s))) \<noteq> numInitConstraints s" by simp
  then have 1: "\<exists>e st. setOutputConstraints s mat w h rhs n = Inl (e, st) \<and> is_config_error e" for mat w h rhs n
    by (simp add: setOutputConstraints_def Let_def glp_get_num_rows_def)
  show "\<exists>e st. setOutputConstraints s mat w h rhs n = Inl (e, st) \<and> is_config_error e"
    by (rule 1)
  show "\<exists>e st. setNoOutputConstraints s = Inl (e, st) \<and> is_config_error e"
    using 1 [of "[]" "numOutputVars s" 0 "[]" 0] by (simp add: setNoOutputConstraints_def)
qed

theorem second_install_fails_witness:
  "setInitConstraints inst_1_1 [1, - 1] 1 2 [1, 1] 2 = Inr box_init
   \<and> run demo_solver (zero_global, box_init) [SetNoOutputConstraints]
       = Inr (zero_global, box_installed)
   \<and> setInitConstraints box_installed [1, - 1] 1 2 [1, 1] 2 = Inl (InitCalledTwice, box_installed)
   \<and> setNoOutputConstraints box_init = Inr box_installed
   \<and> run demo_solver (zero_global, box_installed) [UpdateBasisMatrix [2] 1 1]
       = Inr (zero_global, box_instance)
   \<and> (\<exists>e st. setNoOutputConstraints box_instance = Inl (e, st) \<and> is_config_error e)"
proof -
  have r1: "run demo_solver (zero_global, box_init) [SetNoOutputConstraints]
       = Inr (zero_global, box_installed)"
    by code_simp
  have r2: "run demo_solver (zero_global, box_installed) [UpdateBasisMatrix [2] 1 1]
       = Inr (zero_global, box_instance)"
    by code_simp
  from second_install_fails [of inst_1_1 "[1, - 1]" 1 2 "[1, 1]" 2 box_init demo_solver zero_global
      "[SetNoOutputConstraints]" zero_global box_installed "[1, - 1]" 1 2 "[1, 1]" 2]
    second_install_fails [of box_init "[]" 0 0 "[]" 0 box_installed demo_solver zero_global
      "[UpdateBasisMatrix [2] 1 1]" zero_global box_instance "[]" 0 0 "[]" 0]
  show ?thesis using box_init_eq box_installed_eq r1 r2 by blast
qed

section \<open>The global counters\<close>

text \<open>
  C8 (corrected). A call of \<open>minimize\<close> that returns, with either verdict and with or without the
  retry, has added 1 to \<open>global.optimizations\<close> and has added to \<open>global.iterations\<close> the
  growth of the solver's iteration count over the call, which is the number of iterations
  of the one or two invocations; both additions are additions of 32-bit integers. As long
  as the sums fit, that is \<open>global.optimizations < 2147483647\<close> and
  \<open>global.iterations + pivots \<le> 2147483647\<close>, the one counter has grown by exactly 1
  and the other by the number of iterations, so it has not decreased.

  Not for every call: the first call with \<open>global.optimizations = 2147483647\<close> leaves the
  counter at \<open>-2147483648\<close>, and with \<open>global.iterations = 2147483647\<close> two iterations
  leave \<open>global.iterations\<close> at \<open>-2147483647\<close>, which is less than before.
\<close>

theorem minimize_counters:
  assumes "minimize solve g s direction dirLen result resLen = Inr (g', s', rv, result')"
  shows "optimizations g' = optimizations g + 1
       \<and> iterations g' = iterations g + (glp_get_it_cnt (lp s') - glp_get_it_cnt (lp s))
       \<and> (\<exists>P0. set_direction s direction = Inr P0
             \<and> glp_get_it_cnt (lp s') - glp_get_it_cnt (lp s) = of_nat (pivots solve P0)
             \<and> (sint (optimizations g) < 2147483647
                  \<longrightarrow> sint (optimizations g') = sint (optimizations g) + 1)
             \<and> (sint (iterations g) + int (pivots solve P0) \<le> 2147483647
                  \<longrightarrow> sint (iterations g') = sint (iterations g) + int (pivots solve P0)
                     \<and> sint (iterations g) \<le> sint (iterations g')))"
proof -
  from assms obtain P0 ret where d: "set_direction s direction = Inr P0"
    and r: "simplex_with_retry solve (s\<lparr>lp := P0\<rparr>) = Inr (ret, s')"
    and g': "g' = g\<lparr>iterations := iterations g + (lp_it_cnt (lp s') - lp_it_cnt P0),
                optimizations := optimizations g + 1\<rparr>"
    by (rule minimize_Inr)
  have c0: "lp_it_cnt P0 = lp_it_cnt (lp s)" using set_direction_Inr [OF d] by simp
  have delta: "lp_it_cnt (lp s') - lp_it_cnt P0 = of_nat (pivots solve P0)"
    using r by (auto simp: simplex_with_retry_eq solved_def pivots_def split: if_splits)
  have o: "optimizations g' = optimizations g + 1"
    and i: "iterations g' = iterations g + of_nat (pivots solve P0)"
    using g' delta by simp_all
  have "sint (optimizations g') = sint (optimizations g) + 1"
    if "sint (optimizations g) < 2147483647"
    using sint_add_of_nat [of "optimizations g" 1] that o by simp
  moreover have "sint (iterations g') = sint (iterations g) + int (pivots solve P0)"
    if "sint (iterations g) + int (pivots solve P0) \<le> 2147483647"
    using sint_add_of_nat [OF that] i by simp
  ultimately show ?thesis using o i c0 d delta by (auto simp: glp_get_it_cnt_def)
qed

theorem minimize_counters_witness:
  "minimize demo_solver zero_global box_instance [1] 1 [0] 1
       = Inr (\<lparr>optimizations = 1, iterations = 2\<rparr>, box_solved, 0, [- 1])
   \<and> sint (optimizations zero_global) = 0 \<and> sint (iterations zero_global) = 0
   \<and> set_direction box_instance [1] = Inr box_objective_lp
   \<and> pivots demo_solver box_objective_lp = 2
   \<and> sint (optimizations \<lparr>optimizations = 1, iterations = 2\<rparr>) = 1
   \<and> sint (iterations \<lparr>optimizations = 1, iterations = 2\<rparr>) = 2"
proof -
  have z: "sint (optimizations zero_global) = 0" "sint (iterations zero_global) = 0"
    by (simp_all add: zero_global_def)
  have p: "pivots demo_solver box_objective_lp = 2" by code_simp
  from minimize_counters [OF box_minimize] box_direction_eq z p
  show ?thesis using box_minimize by auto
qed

theorem counters_grow_counterexample:
  "minimize demo_solver \<lparr>optimizations = 2147483647, iterations = 2147483647\<rparr>
       box_instance [1] 1 [0] 1
     = Inr (\<lparr>optimizations = 2147483648, iterations = 2147483649\<rparr>, box_solved, 0, [- 1])
   \<and> sint (optimizations \<lparr>optimizations = 2147483647, iterations = 2147483647\<rparr>) = 2147483647
   \<and> sint (optimizations \<lparr>optimizations = 2147483648, iterations = 2147483649\<rparr>) = - 2147483648
   \<and> sint (iterations \<lparr>optimizations = 2147483647, iterations = 2147483647\<rparr>) = 2147483647
   \<and> sint (iterations \<lparr>optimizations = 2147483648, iterations = 2147483649\<rparr>) = - 2147483647"
  by code_simp

section \<open>Sparse-matrix input\<close>

text \<open>
  C9. Called with the true lengths of its four buffers, \<open>setInputConstraintsCsr\<close> succeeds
  exactly when the three length conditions hold: then it stores the four arrays and
  changes nothing else; when one of them is violated it ends with a configuration error.
\<close>

theorem setInputConstraintsCsr_accepts_iff_well_formed:
  fixes s :: LpData
  shows "(csr_well_formed data indices indptr rhs \<longrightarrow>
            setInputConstraintsCsr s data (int (length data)) indices (int (length indices))
                indptr (int (length indptr)) rhs (int (length rhs))
              = Inr (s\<lparr>inputCsrData := data, inputCsrIndices := indices,
                       inputCsrIndptr := indptr, inputRhs := rhs\<rparr>))
       \<and> (\<not> csr_well_formed data indices indptr rhs \<longrightarrow>
            (\<exists>e. setInputConstraintsCsr s data (int (length data)) indices (int (length indices))
                   indptr (int (length indptr)) rhs (int (length rhs)) = Inl (e, s)
                 \<and> is_config_error e))"
proof -
  have last_nth: "indptr ! nat (int (length indptr) - 1) = last indptr" if "indptr \<noteq> []"
    using that by (simp add: last_conv_nth nat_diff_distrib')
  have len: "length indptr = length rhs + 1 \<Longrightarrow> indptr \<noteq> []"
    by auto
  show ?thesis
  proof (cases "length indptr = length rhs + 1")
    case True
    then have ne: "indptr \<noteq> []" by (rule len)
    show ?thesis
      using True ne last_nth [OF ne]
      by (auto simp: setInputConstraintsCsr_def csr_well_formed_def can_read_def)
  next
    case False
    then show ?thesis
      by (auto simp: setInputConstraintsCsr_def csr_well_formed_def)
  qed
qed

theorem setInputConstraintsCsr_accepts_iff_well_formed_witness:
  "csr_well_formed [1, 2] [0, 1] [0, 1, 2] [5, 6]
   \<and> setInputConstraintsCsr inst_1_1 [1, 2] 2 [0, 1] 2 [0, 1, 2] 3 [5, 6] 2
       = Inr (inst_1_1\<lparr>inputCsrData := [1, 2], inputCsrIndices := [0, 1],
                inputCsrIndptr := [0, 1, 2], inputRhs := [5, 6]\<rparr>)
   \<and> \<not> csr_well_formed [1, 2] [0, 1] [0, 1, 3] [5, 6]
   \<and> setInputConstraintsCsr inst_1_1 [1, 2] 2 [0, 1] 2 [0, 1, 3] 3 [5, 6] 2
       = Inl (CsrLastIndptrNeqDataLen, inst_1_1)"
  using setInputConstraintsCsr_accepts_iff_well_formed
          [of "[1, 2]" "[0, 1]" "[0, 1, 2]" "[5, 6]" inst_1_1]
    setInputConstraintsCsr_accepts_iff_well_formed
          [of "[1, 2]" "[0, 1]" "[0, 1, 3]" "[5, 6]" inst_1_1]
  by (simp add: csr_well_formed_def setInputConstraintsCsr_def can_read_def)

section \<open>The result buffer\<close>

text \<open>
  C10. A call of \<open>minimize\<close> that returns, returns 0 or 1 and leaves the length of the
  result buffer as it is. If the solution status is not \<^verbatim>\<open>GLP_OPT\<close>, or the return value
  is 1 (infeasible), the buffer is unchanged. In every case the entries at index
  \<open>min resLen numCols\<close> and beyond, hence those at index \<open>resLen\<close> and beyond, are
  unchanged.
\<close>

theorem minimize_result_frame:
  assumes "minimize solve g s direction dirLen result resLen = Inr (g', s', rv, result')"
  shows "(rv = 0 \<or> rv = 1)
       \<and> length result' = length result
       \<and> (glp_get_status (lp s') \<noteq> GLP_OPT \<longrightarrow> result' = result)
       \<and> (rv = 1 \<longrightarrow> result' = result)
       \<and> (\<forall>i. min resLen (glp_get_num_cols (lp s')) \<le> int i \<longrightarrow> result' ! i = result ! i)
       \<and> (\<forall>i. resLen \<le> int i \<longrightarrow> result' ! i = result ! i)"
proof -
  from assms obtain P0 ret where p: "processSimplexResult s' ret result resLen = Inr (rv, result')"
    by (rule minimize_Inr)
  from processSimplexResult_Inr [OF p] show ?thesis
  proof
    assume a: "rv = 0 \<and> ret = 0 \<and> glp_get_status (lp s') = GLP_OPT
            \<and> can_read result (min resLen (glp_get_num_cols (lp s')))
            \<and> result' = write_prims (lp s') 0 (nat (min resLen (glp_get_num_cols (lp s')))) result"
    have "result' ! i = result ! i" if "min resLen (glp_get_num_cols (lp s')) \<le> int i" for i
    proof -
      have "0 + nat (min resLen (glp_get_num_cols (lp s'))) \<le> i" using that by simp
      then show ?thesis using a write_prims_beyond by blast
    qed
    then show ?thesis using a by simp
  next
    assume "rv = 1 \<and> result' = result
            \<and> (ret = GLP_ENOPFS \<or> ret = 0 \<and> glp_get_status (lp s') = GLP_NOFEAS)"
    then show ?thesis by simp
  qed
qed

theorem minimize_result_frame_witness:
  "minimize demo_solver zero_global box_instance [1] 1 [0, 7] 1
       = Inr (\<lparr>optimizations = 1, iterations = 2\<rparr>, box_solved, 0, [- 1, 7])
   \<and> length [- 1, 7 :: real] = length [0, 7 :: real]
   \<and> [- 1, 7 :: real] ! 1 = [0, 7] ! 1"
proof -
  have m: "minimize demo_solver zero_global box_instance [1] 1 [0, 7] 1
       = Inr (\<lparr>optimizations = 1, iterations = 2\<rparr>, box_solved, 0, [- 1, 7])"
    by code_simp
  from minimize_result_frame [OF m]
  have "length [- 1, 7 :: real] = length [0, 7 :: real]"
    and "\<forall>i. 1 \<le> int i \<longrightarrow> [- 1, 7 :: real] ! i = [0, 7] ! i"
    by blast+
  then show ?thesis using m by simp
qed

end
